theory Spec2Isabelle
  imports Main "HOL-Library.AList"
begin

section \<open>Parameter types, values and errors\<close>

text \<open>
  Modelled from the spec: \<^verbatim>\<open>types/common.ts\<close> (the \<^verbatim>\<open>ParameterType\<close> enum and the
  \<^verbatim>\<open>ParameterValue\<close> union) is imported by \<^verbatim>\<open>global-parameters.ts\<close> but is not among
  the sources. The spec (data model) lists the closed enumeration
  STRING, BOOLEAN, INT, BIGINT, FLOAT, FILE (\<open>INT\<close> is written \<open>INT'\<close>, the plain
  word being reserved syntax of HOL).
\<close>

datatype ParameterType = STRING | BOOLEAN | INT' | BIGINT | FLOAT | FILE

text \<open>
  Modelled from the spec: a \<^verbatim>\<open>ParameterValue\<close> is the native value of one of the
  parameter types: a string, a boolean, a number or a bigint. JavaScript numbers are
  IEEE doubles; nothing below computes with them, so their carrier is the type
  parameter \<open>'n\<close>. A raw command-line or environment string is a \<open>StringValue\<close>.
\<close>

datatype 'n ParameterValue =
    StringValue string
  | BooleanValue bool
  | NumberValue 'n
  | BigIntValue int

text \<open>
  The four \<^verbatim>\<open>HardhatError\<close> descriptors thrown by \<^verbatim>\<open>global-parameters.ts\<close>, each
  with its message arguments in the order the source writes them:
  \<^item> \<open>INVALID_NAME name\<close>
  \<^item> \<open>RESERVED_NAME name\<close>
  \<^item> \<open>INVALID_VALUE_FOR_TYPE value name type\<close>; \<open>type\<close> is optional because
    \<^verbatim>\<open>buildGlobalParameterDefinition\<close> passes its optional \<^verbatim>\<open>parameterType\<close> argument
  \<^item> \<open>GLOBAL_PARAMETER_ALREADY_DEFINED plugin globalParameter definedByPlugin\<close>
\<close>

datatype 'n HardhatError =
    INVALID_NAME string
  | RESERVED_NAME string
  | INVALID_VALUE_FOR_TYPE "'n ParameterValue" string "ParameterType option"
  | GLOBAL_PARAMETER_ALREADY_DEFINED string string string

section \<open>Global parameters: data model (\<^verbatim>\<open>types/global-parameters.ts\<close>)\<close>

record 'n GlobalParameter =
  name :: string
  description :: string
  parameterType :: ParameterType
  defaultValue :: "'n ParameterValue"

record 'n GlobalParametersMapEntry =
  pluginId :: string
  param :: "'n GlobalParameter"

text \<open>
  \<^verbatim>\<open>GlobalParametersMap = Map<string, GlobalParametersMapEntry>\<close>. A JavaScript
  \<^verbatim>\<open>Map\<close> iterates in insertion order, and \<^verbatim>\<open>resolveGlobalArguments\<close> iterates it, so
  the map is an association list in insertion order. \<^verbatim>\<open>get\<close> returns the entry of a
  key or \<^verbatim>\<open>undefined\<close>; \<^verbatim>\<open>set\<close> replaces the value of a present key in place and
  appends an absent key at the end.
\<close>

type_synonym 'n GlobalParametersMap = "(string \<times> 'n GlobalParametersMapEntry) list"

definition Map_get :: "('k \<times> 'v) list \<Rightarrow> 'k \<Rightarrow> 'v option" where
  "Map_get m k = map_of m k"

definition Map_set :: "('k \<times> 'v) list \<Rightarrow> 'k \<Rightarrow> 'v \<Rightarrow> ('k \<times> 'v) list" where
  "Map_set m k v = AList.update k v m"

text \<open>
  \<^verbatim>\<open>GlobalArguments extends Record<string, ParameterValue>\<close>: the object that
  \<^verbatim>\<open>resolveGlobalArguments\<close> fills and returns, as the map of its own properties.
\<close>

type_synonym 'n GlobalArguments = "string \<rightharpoonup> 'n ParameterValue"

text \<open>
  The object that \<^verbatim>\<open>buildGlobalParameterDefinition\<close> destructures: the same four
  fields, with \<^verbatim>\<open>parameterType\<close> optional. The fields carry the prefix \<open>arg_\<close> to keep
  them apart from those of \<open>GlobalParameter\<close>.
\<close>

record 'n GlobalParameterArgs =
  arg_name :: string
  arg_description :: string
  arg_parameterType :: "ParameterType option"
  arg_defaultValue :: "'n ParameterValue"

text \<open>
  The part of \<^verbatim>\<open>HardhatPlugin\<close> that \<^verbatim>\<open>buildGlobalParametersMap\<close> reads: the plugin's
  \<^verbatim>\<open>id\<close> (named \<open>id_plugin\<close> here, \<open>id\<close> being the identity function of HOL) and its
  optional list of global parameters. The plugins are not validated yet, so each
  listed parameter is the raw object handed to \<^verbatim>\<open>buildGlobalParameterDefinition\<close>.
\<close>

record 'n HardhatPlugin =
  id_plugin :: string
  globalParameters :: "'n GlobalParameterArgs list option"

section \<open>Global parameters: operations (\<^verbatim>\<open>internal/global-parameters.ts\<close>)\<close>

text \<open>
  \<^verbatim>\<open>buildGlobalParameterDefinition\<close>. The three imports from \<^verbatim>\<open>./parameters.js\<close>
  (\<^verbatim>\<open>isValidParamNameCasing\<close>, \<^verbatim>\<open>RESERVED_PARAMETER_NAMES\<close>, \<^verbatim>\<open>isParameterValueValid\<close>)
  are not among the sources and are taken as parameters. The checks run in the
  order of the source; the error for a rejected default value carries the literal
  name \<^verbatim>\<open>"defaultValue"\<close> and the optional \<^verbatim>\<open>parameterType\<close> argument as written there.
\<close>

definition buildGlobalParameterDefinition ::
  "(string \<Rightarrow> bool) \<Rightarrow> string set \<Rightarrow> (ParameterType \<Rightarrow> 'n ParameterValue \<Rightarrow> bool) \<Rightarrow>
   'n GlobalParameterArgs \<Rightarrow> 'n HardhatError + 'n GlobalParameter" where
  "buildGlobalParameterDefinition isValidParamNameCasing RESERVED_PARAMETER_NAMES
     isParameterValueValid a =
    (let type = (case arg_parameterType a of Some t \<Rightarrow> t | None \<Rightarrow> STRING) in
     if \<not> isValidParamNameCasing (arg_name a) then Inl (INVALID_NAME (arg_name a))
     else if arg_name a \<in> RESERVED_PARAMETER_NAMES then Inl (RESERVED_NAME (arg_name a))
     else if \<not> isParameterValueValid type (arg_defaultValue a) then
       Inl (INVALID_VALUE_FOR_TYPE (arg_defaultValue a) ''defaultValue'' (arg_parameterType a))
     else Inr \<lparr> name = arg_name a, description = arg_description a,
                parameterType = type, defaultValue = arg_defaultValue a \<rparr>)"

text \<open>
  \<^verbatim>\<open>buildGlobalParametersMap\<close>: the inner loop over the parameters of one plugin
  (\<open>buildPluginParameters\<close>) and the outer loop over the plugins
  (\<open>buildPluginsParameters\<close>), both threading the map built so far. A \<^verbatim>\<open>throw\<close> is
  an \<open>Inl\<close> that ends both loops. The existence check reads \<^verbatim>\<open>param.name\<close> before
  the definition is built.
\<close>

fun buildPluginParameters ::
  "(string \<Rightarrow> bool) \<Rightarrow> string set \<Rightarrow> (ParameterType \<Rightarrow> 'n ParameterValue \<Rightarrow> bool) \<Rightarrow>
   string \<Rightarrow> 'n GlobalParameterArgs list \<Rightarrow> 'n GlobalParametersMap \<Rightarrow>
   'n HardhatError + 'n GlobalParametersMap" where
  "buildPluginParameters vn rs vv pid [] m = Inr m"
| "buildPluginParameters vn rs vv pid (p # ps) m =
    (case Map_get m (arg_name p) of
       Some existingByName \<Rightarrow>
         Inl (GLOBAL_PARAMETER_ALREADY_DEFINED pid (arg_name p) (pluginId existingByName))
     | None \<Rightarrow>
        (case buildGlobalParameterDefinition vn rs vv p of
           Inl e \<Rightarrow> Inl e
         | Inr validatedGlobalParam \<Rightarrow>
             buildPluginParameters vn rs vv pid ps
               (Map_set m (name validatedGlobalParam)
                  \<lparr> pluginId = pid, param = validatedGlobalParam \<rparr>)))"

fun buildPluginsParameters ::
  "(string \<Rightarrow> bool) \<Rightarrow> string set \<Rightarrow> (ParameterType \<Rightarrow> 'n ParameterValue \<Rightarrow> bool) \<Rightarrow>
   'n HardhatPlugin list \<Rightarrow> 'n GlobalParametersMap \<Rightarrow>
   'n HardhatError + 'n GlobalParametersMap" where
  "buildPluginsParameters vn rs vv [] m = Inr m"
| "buildPluginsParameters vn rs vv (plugin # plugins) m =
    (case globalParameters plugin of
       None \<Rightarrow> buildPluginsParameters vn rs vv plugins m
     | Some ps \<Rightarrow>
        (case buildPluginParameters vn rs vv (id_plugin plugin) ps m of
           Inl e \<Rightarrow> Inl e
         | Inr m' \<Rightarrow> buildPluginsParameters vn rs vv plugins m'))"

definition buildGlobalParametersMap ::
  "(string \<Rightarrow> bool) \<Rightarrow> string set \<Rightarrow> (ParameterType \<Rightarrow> 'n ParameterValue \<Rightarrow> bool) \<Rightarrow>
   'n HardhatPlugin list \<Rightarrow> 'n HardhatError + 'n GlobalParametersMap" where
  "buildGlobalParametersMap vn rs vv resolvedPlugins =
     buildPluginsParameters vn rs vv resolvedPlugins []"

text \<open>
  \<^verbatim>\<open>String.prototype.toUpperCase\<close> on ASCII: the letters \<^verbatim>\<open>a\<close> to \<^verbatim>\<open>z\<close> (codes 97 to
  122) move down by 32, every other character stays.
\<close>

definition toUpperCase :: "string \<Rightarrow> string" where
  "toUpperCase s =
     map (\<lambda>c. if 97 \<le> (of_char c :: nat) \<and> (of_char c :: nat) \<le> 122
               then char_of ((of_char c :: nat) - 32) else c) s"

text \<open>
  The name of the environment variable of a parameter, as the template literal
  \<^verbatim>\<open>`HARDHAT_${camelToSnakeCase(name).toUpperCase()}`\<close> builds it. \<^verbatim>\<open>camelToSnakeCase\<close>
  comes from the package \<^verbatim>\<open>@nomicfoundation/hardhat-utils\<close> and is a parameter.
\<close>

definition envVarName :: "(string \<Rightarrow> string) \<Rightarrow> string \<Rightarrow> string" where
  "envVarName camelToSnakeCase nm = ''HARDHAT_'' @ toUpperCase (camelToSnakeCase nm)"

text \<open>
  The user-provided arguments are a plain object, read by the source as a
  \<^verbatim>\<open>Record<string, string | undefined>\<close>. The model keeps its own properties: a name the
  object does not have is \<open>None\<close>, a property whose value is \<^verbatim>\<open>undefined\<close> is
  \<open>Some None\<close>, a property with a raw string is \<open>Some (Some s)\<close>. The object \<^verbatim>\<open>{}\<close> of
  the tests is \<open>Map.empty\<close>.
\<close>

type_synonym UserProvidedGlobalArguments = "string \<rightharpoonup> string option"

text \<open>
  What the read \<^verbatim>\<open>userProvidedGlobalArguments[name]\<close> can give besides \<^verbatim>\<open>undefined\<close>: a
  raw string, or, for a name the object does not have itself, the member of that name
  which the object inherits from \<^verbatim>\<open>Object.prototype\<close> (a function, or the prototype
  itself for \<^verbatim>\<open>__proto__\<close>).
\<close>

datatype RawValue = StringRaw string | InheritedMember string

text \<open>The names of the properties of \<^verbatim>\<open>Object.prototype\<close>.\<close>

definition ObjectPrototypeNames :: "string set" where
  "ObjectPrototypeNames =
     {''constructor'', ''hasOwnProperty'', ''isPrototypeOf'', ''propertyIsEnumerable'',
      ''toLocaleString'', ''toString'', ''valueOf'', ''__proto__'',
      ''__defineGetter__'', ''__defineSetter__'', ''__lookupGetter__'', ''__lookupSetter__''}"

text \<open>
  The property read \<^verbatim>\<open>object[name]\<close> of JavaScript on a plain object: the own
  property when the object has one (\<open>None\<close> when its value is \<^verbatim>\<open>undefined\<close>), else the
  member inherited from \<^verbatim>\<open>Object.prototype\<close> when the prototype has the name, else
  \<^verbatim>\<open>undefined\<close>.
\<close>

definition getProperty :: "UserProvidedGlobalArguments \<Rightarrow> string \<Rightarrow> RawValue option" where
  "getProperty object nm =
     (case object nm of
        Some (Some s) \<Rightarrow> Some (StringRaw s)
      | Some None \<Rightarrow> None
      | None \<Rightarrow> if nm \<in> ObjectPrototypeNames then Some (InheritedMember nm) else None)"

text \<open>
  \<^verbatim>\<open>resolveGlobalArguments\<close>. \<^verbatim>\<open>parseParameterValue\<close> (from \<^verbatim>\<open>./parameters.js\<close>) and
  \<^verbatim>\<open>camelToSnakeCase\<close> are parameters; the parser takes what the source hands it, which
  is a \<open>RawValue\<close>, and its exceptions are of any type \<open>'e\<close>. \<^verbatim>\<open>process.env\<close> is the
  partial map \<open>env\<close> from variable names to strings; the name read from it starts
  with \<^verbatim>\<open>HARDHAT_\<close>, which no member of \<^verbatim>\<open>Object.prototype\<close> does. \<open>chosenValue\<close> is the
  variable \<^verbatim>\<open>value\<close> of the loop body after the two reads: the environment is read only
  when the read of the user-provided arguments gave \<^verbatim>\<open>undefined\<close>. \<open>resolveEntries\<close> is
  the loop, threading the object \<^verbatim>\<open>globalArguments\<close>; a \<^verbatim>\<open>throw\<close> of the parser ends
  it.
\<close>

definition chosenValue ::
  "(string \<Rightarrow> string) \<Rightarrow> (string \<rightharpoonup> string) \<Rightarrow> UserProvidedGlobalArguments \<Rightarrow> string \<Rightarrow>
   RawValue option" where
  "chosenValue camelToSnakeCase env userProvidedGlobalArguments nm =
     (case getProperty userProvidedGlobalArguments nm of
        Some v \<Rightarrow> Some v
      | None \<Rightarrow> map_option StringRaw (env (envVarName camelToSnakeCase nm)))"

fun resolveEntries ::
  "(RawValue \<Rightarrow> ParameterType \<Rightarrow> string \<Rightarrow> 'e + 'n ParameterValue) \<Rightarrow>
   (string \<Rightarrow> string) \<Rightarrow> (string \<rightharpoonup> string) \<Rightarrow> UserProvidedGlobalArguments \<Rightarrow>
   'n GlobalParametersMap \<Rightarrow> 'n GlobalArguments \<Rightarrow> 'e + 'n GlobalArguments" where
  "resolveEntries parse c2s env ua [] globalArguments = Inr globalArguments"
| "resolveEntries parse c2s env ua ((nm, entry) # rest) globalArguments =
    (case chosenValue c2s env ua nm of
       Some v \<Rightarrow>
        (case parse v (parameterType (param entry)) nm of
           Inl e \<Rightarrow> Inl e
         | Inr parsedValue \<Rightarrow>
             resolveEntries parse c2s env ua rest (globalArguments(nm \<mapsto> parsedValue)))
     | None \<Rightarrow>
         resolveEntries parse c2s env ua rest
           (globalArguments(nm \<mapsto> defaultValue (param entry))))"

definition resolveGlobalArguments ::
  "(RawValue \<Rightarrow> ParameterType \<Rightarrow> string \<Rightarrow> 'e + 'n ParameterValue) \<Rightarrow>
   (string \<Rightarrow> string) \<Rightarrow> (string \<rightharpoonup> string) \<Rightarrow> UserProvidedGlobalArguments \<Rightarrow>
   'n GlobalParametersMap \<Rightarrow> 'e + 'n GlobalArguments" where
  "resolveGlobalArguments parse c2s env userProvidedGlobalArguments globalParametersMap =
     resolveEntries parse c2s env userProvidedGlobalArguments globalParametersMap Map.empty"

section \<open>The helpers of \<^verbatim>\<open>parameters.ts\<close> and of \<^verbatim>\<open>hardhat-utils\<close>\<close>

text \<open>
  The operations above take these helpers as parameters, so the theorems below hold
  for every implementation of them. The definitions of this section give one
  implementation, used where a theorem is applied to the inputs of the repository's
  tests.
\<close>

definition isLowerChar :: "char \<Rightarrow> bool" where
  "isLowerChar c = (97 \<le> (of_char c :: nat) \<and> (of_char c :: nat) \<le> 122)"

definition isUpperChar :: "char \<Rightarrow> bool" where
  "isUpperChar c = (65 \<le> (of_char c :: nat) \<and> (of_char c :: nat) \<le> 90)"

definition isDigitChar :: "char \<Rightarrow> bool" where
  "isDigitChar c = (48 \<le> (of_char c :: nat) \<and> (of_char c :: nat) \<le> 57)"

text \<open>
  Modelled from the spec: \<^verbatim>\<open>isValidParamNameCasing\<close> of \<^verbatim>\<open>parameters.ts\<close> is missing.
  The spec asks that a name match a canonical lower-camel-case pattern: a lower-case
  letter followed by letters and digits. The tests reject \<^verbatim>\<open>"foo bar"\<close>.
\<close>

definition isValidParamNameCasing :: "string \<Rightarrow> bool" where
  "isValidParamNameCasing s =
     (case s of
        [] \<Rightarrow> False
      | c # cs \<Rightarrow> isLowerChar c \<and>
                  list_all (\<lambda>d. isLowerChar d \<or> isUpperChar d \<or> isDigitChar d) cs)"

text \<open>
  Modelled from the spec: \<^verbatim>\<open>RESERVED_PARAMETER_NAMES\<close> of \<^verbatim>\<open>parameters.ts\<close> is missing.
  The spec describes it as the names the runtime uses for its own purposes and does
  not list them; no theorem depends on the members chosen here.
\<close>

definition RESERVED_PARAMETER_NAMES :: "string set" where
  "RESERVED_PARAMETER_NAMES = {''config'', ''help'', ''version''}"

text \<open>
  Modelled from the spec: \<^verbatim>\<open>isParameterValueValid\<close> of \<^verbatim>\<open>parameters.ts\<close> is missing.
  It is the check of an already-typed value against a parameter type: the value must
  be of the native type of the parameter type. What makes a number a valid INT or
  FLOAT is left to \<open>numberOk\<close>.
\<close>

fun isParameterValueValid ::
  "(ParameterType \<Rightarrow> 'n \<Rightarrow> bool) \<Rightarrow> ParameterType \<Rightarrow> 'n ParameterValue \<Rightarrow> bool" where
  "isParameterValueValid numberOk STRING (StringValue s) = True"
| "isParameterValueValid numberOk FILE (StringValue s) = True"
| "isParameterValueValid numberOk BOOLEAN (BooleanValue b) = True"
| "isParameterValueValid numberOk INT' (NumberValue x) = numberOk INT' x"
| "isParameterValueValid numberOk FLOAT (NumberValue x) = numberOk FLOAT x"
| "isParameterValueValid numberOk BIGINT (BigIntValue i) = True"
| "isParameterValueValid numberOk _ _ = False"

text \<open>
  Modelled from the spec: \<^verbatim>\<open>parseParameterValue\<close> of \<^verbatim>\<open>parameters.ts\<close> is missing.
  By the spec (parameter type/value model) it parses a raw string by the
  string-parsing rule of the type and fails with \<open>INVALID_VALUE_FOR_TYPE\<close>, carrying the
  offending raw value, the parameter name and the type, when the rule rejects the
  string. The rule of each type is the parameter \<open>rule\<close>. The spec says nothing of a
  value that is not a string: what the parser does with an inherited member is the
  parameter \<open>inherited\<close>.
\<close>

definition parseParameterValue ::
  "(ParameterType \<Rightarrow> string \<Rightarrow> 'n ParameterValue option) \<Rightarrow>
   (string \<Rightarrow> ParameterType \<Rightarrow> string \<Rightarrow> 'n HardhatError + 'n ParameterValue) \<Rightarrow>
   RawValue \<Rightarrow> ParameterType \<Rightarrow> string \<Rightarrow> 'n HardhatError + 'n ParameterValue" where
  "parseParameterValue rule inherited value type nm =
     (case value of
        StringRaw strValue \<Rightarrow>
         (case rule type strValue of
            Some v \<Rightarrow> Inr v
          | None \<Rightarrow> Inl (INVALID_VALUE_FOR_TYPE (StringValue strValue) nm (Some type)))
      | InheritedMember member \<Rightarrow> inherited member type nm)"

text \<open>
  Modelled from the spec: the parsing of an integer literal in \<^verbatim>\<open>parameters.ts\<close> is
  missing. \<open>parseDigits\<close> reads a sequence of decimal digits as a number, most
  significant digit first, and rejects any other character.
\<close>

fun parseDigits :: "nat \<Rightarrow> string \<Rightarrow> nat option" where
  "parseDigits acc [] = Some acc"
| "parseDigits acc (c # cs) =
     (if isDigitChar c then parseDigits (10 * acc + ((of_char c :: nat) - 48)) cs else None)"

text \<open>
  Modelled from the spec: the parsing of a BIGINT in \<^verbatim>\<open>parameters.ts\<close> is missing. By
  the spec it is an integer literal with an optional suffix; the tests parse \<^verbatim>\<open>5n\<close>.
\<close>

definition parseBigInt :: "string \<Rightarrow> int option" where
  "parseBigInt s =
     (let body = (if s \<noteq> [] \<and> last s = CHR ''n'' then butlast s else s)
      in if body = [] then None else map_option int (parseDigits 0 body))"

text \<open>
  Modelled from the spec: the string-parsing rules of \<^verbatim>\<open>parameters.ts\<close> are missing.
  By the spec a STRING (or FILE) is the raw string itself, a BOOLEAN is one of the two
  literal tokens \<^verbatim>\<open>true\<close> and \<^verbatim>\<open>false\<close>, and a BIGINT is an integer literal with an
  optional suffix. The rule for numbers is the parameter \<open>numberRule\<close>.
\<close>

fun parsingRule ::
  "(ParameterType \<Rightarrow> string \<Rightarrow> 'n option) \<Rightarrow> ParameterType \<Rightarrow> string \<Rightarrow>
   'n ParameterValue option" where
  "parsingRule numberRule STRING s = Some (StringValue s)"
| "parsingRule numberRule FILE s = Some (StringValue s)"
| "parsingRule numberRule BOOLEAN s =
     (if s = ''true'' then Some (BooleanValue True)
      else if s = ''false'' then Some (BooleanValue False)
      else None)"
| "parsingRule numberRule BIGINT s = map_option BigIntValue (parseBigInt s)"
| "parsingRule numberRule INT' s = map_option NumberValue (numberRule INT' s)"
| "parsingRule numberRule FLOAT s = map_option NumberValue (numberRule FLOAT s)"

text \<open>
  Modelled from the spec: \<^verbatim>\<open>camelToSnakeCase\<close> of \<^verbatim>\<open>@nomicfoundation/hardhat-utils\<close> is
  missing. The spec derives the environment variable of a parameter from its
  camel-case name in upper snake case: every upper-case letter starts a new word, so
  it is replaced by an underscore and its lower-case form. The tests read
  \<^verbatim>\<open>HARDHAT_PARAM3\<close> for \<^verbatim>\<open>param3\<close>.
\<close>

fun camelToSnakeCase :: "string \<Rightarrow> string" where
  "camelToSnakeCase [] = []"
| "camelToSnakeCase (c # cs) =
     (if isUpperChar c
      then CHR ''_'' # char_of ((of_char c :: nat) + 32) # camelToSnakeCase cs
      else c # camelToSnakeCase cs)"

section \<open>Inputs of the tests of \<^verbatim>\<open>buildGlobalParametersMap\<close>\<close>

definition globalParameterDefinition :: "int GlobalParameterArgs" where
  "globalParameterDefinition =
     \<lparr> arg_name = ''param1'', arg_description = ''param1 description'',
       arg_parameterType = Some BOOLEAN, arg_defaultValue = BooleanValue True \<rparr>"

definition globalParameterDefinition2 :: "int GlobalParameterArgs" where
  "globalParameterDefinition2 =
     \<lparr> arg_name = ''param1'', arg_description = ''param1 description 2'',
       arg_parameterType = Some BOOLEAN, arg_defaultValue = BooleanValue False \<rparr>"

text \<open>A redeclaration of \<^verbatim>\<open>param1\<close> whose default value is not a boolean.\<close>

definition globalParameterDefinitionBadDefault :: "int GlobalParameterArgs" where
  "globalParameterDefinitionBadDefault =
     \<lparr> arg_name = ''param1'', arg_description = ''param1 description 2'',
       arg_parameterType = Some BOOLEAN, arg_defaultValue = StringValue ''bar'' \<rparr>"

text \<open>Every number is accepted as an INT and as a FLOAT: the tests declare neither.\<close>

definition anyNumber :: "ParameterType \<Rightarrow> int \<Rightarrow> bool" where
  "anyNumber t x = True"

definition pluginWith :: "string \<Rightarrow> 'n GlobalParameterArgs list \<Rightarrow> 'n HardhatPlugin" where
  "pluginWith i ps = \<lparr> id_plugin = i, globalParameters = Some ps \<rparr>"

text \<open>The parameter of the test of an invalid name, listed by two plugins.\<close>

definition fooBarDefinition :: "int GlobalParameterArgs" where
  "fooBarDefinition =
     \<lparr> arg_name = ''foo bar'', arg_description = ''Foo description'',
       arg_parameterType = Some STRING, arg_defaultValue = StringValue ''bar'' \<rparr>"

text \<open>The parameter of the test of a default value that does not match the type.\<close>

definition fooBadDefaultDefinition :: "int GlobalParameterArgs" where
  "fooBadDefaultDefinition =
     \<lparr> arg_name = ''foo'', arg_description = ''Foo description'',
       arg_parameterType = Some BOOLEAN, arg_defaultValue = StringValue ''bar'' \<rparr>"

section \<open>Inputs of the tests of \<^verbatim>\<open>resolveGlobalArguments\<close>\<close>

definition param1 :: "int GlobalParametersMapEntry" where
  "param1 = \<lparr> pluginId = ''plugin1'',
              param = \<lparr> name = ''param1'', description = ''param1 description'',
                        parameterType = BOOLEAN, defaultValue = BooleanValue True \<rparr> \<rparr>"

definition param2 :: "int GlobalParametersMapEntry" where
  "param2 = \<lparr> pluginId = ''plugin1'',
              param = \<lparr> name = ''param2'', description = ''param2 description'',
                        parameterType = STRING, defaultValue = StringValue ''default'' \<rparr> \<rparr>"

definition param3 :: "int GlobalParametersMapEntry" where
  "param3 = \<lparr> pluginId = ''plugin1'',
              param = \<lparr> name = ''param3'', description = ''param3 description'',
                        parameterType = BIGINT, defaultValue = BigIntValue 0 \<rparr> \<rparr>"

text \<open>No string is a number: the tests parse no INT and no FLOAT.\<close>

definition noNumbers :: "ParameterType \<Rightarrow> string \<Rightarrow> int option" where
  "noNumbers t s = None"

text \<open>
  One behaviour of the parser on an inherited member, for the applications to the
  inputs of the tests, whose names never reach it: the member is rejected.
\<close>

definition rejectInherited ::
  "string \<Rightarrow> ParameterType \<Rightarrow> string \<Rightarrow> int HardhatError + int ParameterValue" where
  "rejectInherited member t nm = Inl (INVALID_VALUE_FOR_TYPE (StringValue member) nm (Some t))"

text \<open>A parameter with a camel-case name, to read the name of its environment variable.\<close>

definition fooBar :: "int GlobalParametersMapEntry" where
  "fooBar = \<lparr> pluginId = ''plugin1'',
              param = \<lparr> name = ''fooBar'', description = ''fooBar description'',
                        parameterType = STRING, defaultValue = StringValue ''default'' \<rparr> \<rparr>"

text \<open>
  A plugin's parameter named \<^verbatim>\<open>toString\<close>, with no declared type and the default
  value \<^verbatim>\<open>"default"\<close>, and its entry in the map that \<^verbatim>\<open>buildGlobalParametersMap\<close>
  builds.
\<close>

definition toStringDefinition :: "int GlobalParameterArgs" where
  "toStringDefinition =
     \<lparr> arg_name = ''toString'', arg_description = ''toString description'',
       arg_parameterType = None, arg_defaultValue = StringValue ''default'' \<rparr>"

definition toStringEntry :: "int GlobalParametersMapEntry" where
  "toStringEntry =
     \<lparr> pluginId = ''plugin1'',
       param = \<lparr> name = ''toString'', description = ''toString description'',
                 parameterType = STRING, defaultValue = StringValue ''default'' \<rparr> \<rparr>"

section \<open>The source of a resolved value\<close>

text \<open>
  \<open>resolvedFrom \<dots> nm entry v\<close>: the value \<open>v\<close> of the parameter \<open>nm\<close> comes from the
  first source that has it: what the read of the user-provided arguments gives,
  parsed; else the raw string of the environment variable, parsed; else the default
  value of the definition, as it is.
\<close>

definition resolvedFrom ::
  "(RawValue \<Rightarrow> ParameterType \<Rightarrow> string \<Rightarrow> 'e + 'n ParameterValue) \<Rightarrow>
   (string \<Rightarrow> string) \<Rightarrow> (string \<rightharpoonup> string) \<Rightarrow> UserProvidedGlobalArguments \<Rightarrow>
   string \<Rightarrow> 'n GlobalParametersMapEntry \<Rightarrow> 'n ParameterValue \<Rightarrow> bool" where
  "resolvedFrom parse c2s env ua nm entry v =
     (case getProperty ua nm of
        Some value \<Rightarrow> parse value (parameterType (param entry)) nm = Inr v
      | None \<Rightarrow>
         (case env (''HARDHAT_'' @ toUpperCase (c2s nm)) of
            Some raw \<Rightarrow> parse (StringRaw raw) (parameterType (param entry)) nm = Inr v
          | None \<Rightarrow> v = defaultValue (param entry)))"

section \<open>The declarations of a plugin list\<close>

text \<open>
  The parameters that a plugin list declares, each with the id of its plugin, in the
  order in which the two loops of \<^verbatim>\<open>buildGlobalParametersMap\<close> visit them, and the same
  loop body run over that flat list.
\<close>

definition declarations :: "'n HardhatPlugin list \<Rightarrow> (string \<times> 'n GlobalParameterArgs) list" where
  "declarations plugins =
     concat (map (\<lambda>plugin. case globalParameters plugin of
                              None \<Rightarrow> []
                            | Some ps \<Rightarrow> map (\<lambda>p. (id_plugin plugin, p)) ps) plugins)"

fun buildDeclarations ::
  "(string \<Rightarrow> bool) \<Rightarrow> string set \<Rightarrow> (ParameterType \<Rightarrow> 'n ParameterValue \<Rightarrow> bool) \<Rightarrow>
   (string \<times> 'n GlobalParameterArgs) list \<Rightarrow> 'n GlobalParametersMap \<Rightarrow>
   'n HardhatError + 'n GlobalParametersMap" where
  "buildDeclarations vn rs vv [] m = Inr m"
| "buildDeclarations vn rs vv ((pid, p) # ds) m =
     (case buildPluginParameters vn rs vv pid [p] m of
        Inl e \<Rightarrow> Inl e
      | Inr m' \<Rightarrow> buildDeclarations vn rs vv ds m')"

section \<open>Hook manager: data model\<close>

text \<open>
  Modelled from the spec: the class \<^verbatim>\<open>HookManagerImplementation\<close>
  (\<^verbatim>\<open>internal/hook-manager.ts\<close>) is missing; only its tests are among the sources.
  Everything in this section and the next follows section 4.4 of the spec and the
  calls that the tests make.

  Handlers are asynchronous functions with side effects, and every dispatch awaits
  them. An awaited call is a function from the state of the world before the call to
  its outcome and the state after it: the outcome is \<open>Inr\<close> of the returned value, or
  \<open>Inl\<close> of the exception thrown. \<open>'a\<close> is the type of the arguments (the hook
  context is one of them), \<open>'r\<close> of the results, \<open>'e\<close> of the exceptions and \<open>'s\<close> of
  the world.
\<close>

type_synonym ('e, 'r, 's) awaited = "'s \<Rightarrow> ('e + 'r) \<times> 's"

text \<open>
  Modelled from the spec: the signatures of the functions that the missing class
  calls. A default implementation, a \<^verbatim>\<open>next\<close> continuation and a handler of the
  sequential and parallel dispatch take the list of their arguments. A handler of a
  chain takes \<^verbatim>\<open>next\<close> after them.
\<close>

type_synonym ('a, 'e, 'r, 's) implementation = "'a list \<Rightarrow> ('e, 'r, 's) awaited"

type_synonym ('a, 'e, 'r, 's) chainHandler =
  "'a list \<Rightarrow> ('a, 'e, 'r, 's) implementation \<Rightarrow> ('e, 'r, 's) awaited"

text \<open>
  Modelled from the spec: the state of the missing class. The hook manager owns one
  handler set for each pair of a category and a hook name, created on the first
  registration for the pair and never removed, and the hook context of its runtime
  environment. A handler set lists its handlers in registration order. \<open>'h\<close> is the
  type of the handlers: the hooks of one manager share one signature here.
\<close>

record ('a, 'h) HookManager =
  handlerSets :: "string \<times> string \<rightharpoonup> 'h list"
  hookContext :: 'a

text \<open>
  Modelled from the spec: the constructor of the missing class: a new manager with
  its context set, as the tests build it (\<^verbatim>\<open>new HookManagerImplementation([])\<close>, then
  \<^verbatim>\<open>setContext\<close>), and no handler set yet.
\<close>

definition newHookManager :: "'a \<Rightarrow> ('a, 'h) HookManager" where
  "newHookManager ctx = \<lparr> handlerSets = Map.empty, hookContext = ctx \<rparr>"

text \<open>
  Modelled from the spec: the handler list that the dispatch of the missing class
  reads: the handlers registered for a category and a hook name, in registration
  order; none when the pair has no handler set.
\<close>

definition getHandlers :: "('a, 'h) HookManager \<Rightarrow> string \<Rightarrow> string \<Rightarrow> 'h list" where
  "getHandlers hm category hookName =
     (case handlerSets hm (category, hookName) of None \<Rightarrow> [] | Some hs \<Rightarrow> hs)"

text \<open>
  Modelled from the spec: registering one handler of the missing class, as
  \<^verbatim>\<open>registerHandlers(category, { hookName: handler })\<close> does: the handler goes to the
  end of the handler set of its category and hook name.
\<close>

definition registerHandler ::
  "('a, 'h) HookManager \<Rightarrow> string \<Rightarrow> string \<Rightarrow> 'h \<Rightarrow> ('a, 'h) HookManager" where
  "registerHandler hm category hookName handler =
     hm \<lparr> handlerSets := (handlerSets hm)
            ((category, hookName) \<mapsto> getHandlers hm category hookName @ [handler]) \<rparr>"

text \<open>
  Modelled from the spec: \<^verbatim>\<open>registerHandlers\<close> of the missing class, for an object
  with several hook names: its handlers are registered one after the other.
\<close>

definition registerHandlers ::
  "('a, 'h) HookManager \<Rightarrow> string \<Rightarrow> (string \<times> 'h) list \<Rightarrow> ('a, 'h) HookManager" where
  "registerHandlers hm category hookHandlers =
     foldl (\<lambda>m (hookName, handler). registerHandler m category hookName handler)
       hm hookHandlers"

section \<open>Hook manager: the three dispatch primitives\<close>

text \<open>
  Modelled from the spec: the arguments that the handlers (and the default
  implementation of a chain) receive from the dispatch of the missing class. For the
  category \<^verbatim>\<open>"config"\<close> they are the arguments of the call; for every other category
  the hook context is prepended.
\<close>

definition handlerParams :: "('a, 'h) HookManager \<Rightarrow> string \<Rightarrow> 'a list \<Rightarrow> 'a list" where
  "handlerParams hm category args =
     (if category = ''config'' then args else hookContext hm # args)"

text \<open>
  Modelled from the spec: the composition that \<^verbatim>\<open>runHandlerChain\<close> of the missing
  class builds, a right fold over the reversed handler list: each handler receives the
  arguments and a \<^verbatim>\<open>next\<close> continuation, which is the composition of the handlers
  registered before it, and the default implementation for the first registered
  handler. With no handler it is the default implementation itself.
\<close>

definition composeChain ::
  "('a, 'e, 'r, 's) chainHandler list \<Rightarrow> ('a, 'e, 'r, 's) implementation \<Rightarrow>
   ('a, 'e, 'r, 's) implementation" where
  "composeChain handlers defaultImplementation =
     foldr (\<lambda>handler next. (\<lambda>params. handler params next)) (rev handlers)
       defaultImplementation"

text \<open>
  Modelled from the spec: \<^verbatim>\<open>runHandlerChain\<close> of the missing class applies the composed
  function to the handler arguments and returns what the outermost handler returns.
\<close>

definition runHandlerChain ::
  "('a, ('a, 'e, 'r, 's) chainHandler) HookManager \<Rightarrow> string \<Rightarrow> string \<Rightarrow> 'a list \<Rightarrow>
   ('a, 'e, 'r, 's) implementation \<Rightarrow> ('e, 'r, 's) awaited" where
  "runHandlerChain hm category hookName args defaultImplementation =
     composeChain (getHandlers hm category hookName) defaultImplementation
       (handlerParams hm category args)"

text \<open>
  Modelled from the spec: the calls of \<^verbatim>\<open>runSequentialHandlers\<close> of the missing class:
  the handlers are called one at a time in the order of the list, each with the same
  arguments, each call completing before the next begins, and the returned values
  are collected in call order. An exception of a handler ends the call: the handlers
  after it are not called.
\<close>

fun sequentialCalls ::
  "('a, 'e, 'r, 's) implementation list \<Rightarrow> 'a list \<Rightarrow> ('e, 'r list, 's) awaited" where
  "sequentialCalls [] params s = (Inr [], s)"
| "sequentialCalls (handler # handlers) params s =
     (case handler params s of
        (Inl e, s') \<Rightarrow> (Inl e, s')
      | (Inr r, s') \<Rightarrow>
         (case sequentialCalls handlers params s' of
            (Inl e, s'') \<Rightarrow> (Inl e, s'')
          | (Inr rs, s'') \<Rightarrow> (Inr (r # rs), s'')))"

text \<open>
  Modelled from the spec: \<^verbatim>\<open>runSequentialHandlers\<close> of the missing class runs the
  sequential calls over the handlers in reverse registration order, with the handler
  arguments.
\<close>

definition runSequentialHandlers ::
  "('a, ('a, 'e, 'r, 's) implementation) HookManager \<Rightarrow> string \<Rightarrow> string \<Rightarrow> 'a list \<Rightarrow>
   ('e, 'r list, 's) awaited" where
  "runSequentialHandlers hm category hookName args =
     sequentialCalls (rev (getHandlers hm category hookName))
       (handlerParams hm category args)"

text \<open>
  Modelled from the spec: \<^verbatim>\<open>runParallelHandlers\<close> of the missing class imposes no order
  on the execution of the handlers. A schedule decides which pending call completes
  next: its head, taken modulo the number of pending calls, picks one of them (an
  exhausted schedule picks the first).
\<close>

definition nextIndex :: "nat list \<Rightarrow> nat \<Rightarrow> nat" where
  "nextIndex schedule n = (case schedule of [] \<Rightarrow> 0 | c # _ \<Rightarrow> c mod n)"

text \<open>
  Modelled from the spec: the concurrent calls of \<^verbatim>\<open>runParallelHandlers\<close> of the missing
  class. The calls are numbered by the position of their handler. Each step completes
  the pending call that the schedule picks; the effect of a call on the world is one
  step. The outcomes are returned with the numbers of their calls, in completion
  order.
\<close>

function parallelCalls ::
  "nat list \<Rightarrow> (nat \<times> ('e, 'r, 's) awaited) list \<Rightarrow> 's \<Rightarrow> (nat \<times> ('e + 'r)) list \<times> 's" where
  "parallelCalls schedule pending s =
     (if pending = [] then ([], s)
      else
        let k = nextIndex schedule (length pending);
            (i, call) = pending ! k;
            (outcome, s') = call s;
            (completed, s'') =
               parallelCalls (tl schedule) (take k pending @ drop (Suc k) pending) s'
        in ((i, outcome) # completed, s''))"
  by pat_completeness auto
termination
proof (relation "measure (\<lambda>(schedule, pending, s). length pending)")
  show "wf (measure (\<lambda>(schedule, pending, s). length pending))" by simp
next
  fix schedule :: "nat list" and pending :: "(nat \<times> ('e, 'r, 's) awaited) list"
    and s :: 's and k x i call xa outcome s'
  assume "pending \<noteq> []" and "k = nextIndex schedule (length pending)"
  then have "k < length pending" by (cases schedule) (auto simp: nextIndex_def)
  then show "((tl schedule, take k pending @ drop (Suc k) pending, s'), schedule, pending, s)
          \<in> measure (\<lambda>(schedule, pending, s). length pending)"
    by simp
qed

declare parallelCalls.simps [simp del]

text \<open>
  Modelled from the spec: the failure of the aggregate of \<^verbatim>\<open>runParallelHandlers\<close> of
  the missing class: when a call threw, the exception that came first in completion
  order, even if the other calls succeeded.
\<close>

definition firstException :: "(nat \<times> ('e + 'r)) list \<Rightarrow> 'e option" where
  "firstException completed =
     (case [e. (i, Inl e) \<leftarrow> completed] of [] \<Rightarrow> None | e # _ \<Rightarrow> Some e)"

text \<open>
  Modelled from the spec: the result list of \<^verbatim>\<open>runParallelHandlers\<close> of the missing class:
  the results by the number of their call, whatever the completion order.
\<close>

definition resultsByPosition :: "nat \<Rightarrow> (nat \<times> ('e + 'r)) list \<Rightarrow> 'r list" where
  "resultsByPosition n completed =
     concat (map (\<lambda>i. case map_of completed i of Some (Inr r) \<Rightarrow> [r] | _ \<Rightarrow> []) [0..<n])"

text \<open>
  Modelled from the spec: \<^verbatim>\<open>runParallelHandlers\<close> of the missing class invokes every
  handler with the same handler arguments, the calls numbered in reverse registration
  order (the most recently registered handler is call 0), and returns the aggregate:
  the first exception if a call threw, else the results by position.
\<close>

definition runParallelHandlers ::
  "nat list \<Rightarrow> ('a, ('a, 'e, 'r, 's) implementation) HookManager \<Rightarrow> string \<Rightarrow> string \<Rightarrow>
   'a list \<Rightarrow> ('e, 'r list, 's) awaited" where
  "runParallelHandlers schedule hm category hookName args s =
     (let handlers = rev (getHandlers hm category hookName);
          calls = map (\<lambda>handler. handler (handlerParams hm category args)) handlers;
          (completed, s') = parallelCalls schedule (zip [0..<length calls] calls) s
      in case firstException completed of
           Some e \<Rightarrow> (Inl e, s')
         | None \<Rightarrow> (Inr (resultsByPosition (length calls) completed), s'))"

section \<open>Handlers of the tests of the hook manager\<close>

text \<open>
  The chain handlers of the test of the chain: the world is the array \<^verbatim>\<open>sequence\<close>.
  A handler pushes \<^verbatim>\<open>"<label>:before"\<close>, awaits \<^verbatim>\<open>next\<close> with its own arguments, pushes
  \<^verbatim>\<open>"<label>:after"\<close> and returns what \<^verbatim>\<open>next\<close> returned; the default implementation
  pushes \<^verbatim>\<open>"default"\<close>.
\<close>

definition tracingHandler :: "string \<Rightarrow> ('a, 'e, 'r, string list) chainHandler" where
  "tracingHandler label params next sequence =
     (case next params (sequence @ [label @ '':before'']) of
        (Inl e, sequence') \<Rightarrow> (Inl e, sequence')
      | (Inr newConfig, sequence') \<Rightarrow> (Inr newConfig, sequence' @ [label @ '':after'']))"

definition tracingDefault :: "'r \<Rightarrow> ('a, 'e, 'r, string list) implementation" where
  "tracingDefault r params sequence = (Inr r, sequence @ [''default''])"

text \<open>
  The handlers of the tests of the sequential and the parallel dispatch return a
  fixed value. \<open>returning\<close> also pushes that value on the world, which shows when it
  was called.
\<close>

definition returning :: "'r \<Rightarrow> ('a, 'e, 'r, 'r list) implementation" where
  "returning r params calls = (Inr r, calls @ [r])"

text \<open>
  Handlers that record the arguments they receive, as the tests of the context
  assert on them: the world is the list of the argument lists received so far. The
  chain handler passes its own arguments on to \<^verbatim>\<open>next\<close>.
\<close>

definition recording :: "'r \<Rightarrow> ('a, 'e, 'r, 'a list list) implementation" where
  "recording r params received = (Inr r, received @ [params])"

definition recordingChainHandler :: "('a, 'e, 'r, 'a list list) chainHandler" where
  "recordingChainHandler params next received = next params (received @ [params])"

lemmas fixture_defs = isValidParamNameCasing_def isLowerChar_def isUpperChar_def isDigitChar_def
  RESERVED_PARAMETER_NAMES_def globalParameterDefinition_def globalParameterDefinition2_def
  globalParameterDefinitionBadDefault_def fooBarDefinition_def fooBadDefaultDefinition_def
  pluginWith_def anyNumber_def buildGlobalParameterDefinition_def
  Map_get_def Map_set_def

section \<open>Properties of \<^verbatim>\<open>buildGlobalParametersMap\<close>\<close>

lemma buildPluginParameters_append:
  "buildPluginParameters vn rs vv pid (ps1 @ ps2) m =
     (case buildPluginParameters vn rs vv pid ps1 m of
        Inl e \<Rightarrow> Inl e
      | Inr m' \<Rightarrow> buildPluginParameters vn rs vv pid ps2 m')"
  by (induction ps1 arbitrary: m) (auto split: option.splits sum.splits)

lemma buildPluginsParameters_append:
  "buildPluginsParameters vn rs vv (pls1 @ pls2) m =
     (case buildPluginsParameters vn rs vv pls1 m of
        Inl e \<Rightarrow> Inl e
      | Inr m' \<Rightarrow> buildPluginsParameters vn rs vv pls2 m')"
  by (induction pls1 arbitrary: m) (auto split: option.splits sum.splits)

text \<open>
  C10. The duplicate-name check runs before the definition is validated. Let the
  plugins \<open>earlier\<close> build the map \<open>m\<close>, let the parameters \<open>ps1\<close> that \<open>plugin\<close> lists
  before \<open>p\<close> extend it to \<open>m'\<close>, and let the name of \<open>p\<close> be in \<open>m'\<close>. Then the call
  fails with \<open>GLOBAL_PARAMETER_ALREADY_DEFINED\<close> carrying the plugin, the name and the
  recorded owner. Nothing is assumed about \<open>p\<close> beyond its name: the result is the
  same when \<^verbatim>\<open>buildGlobalParameterDefinition\<close> would reject \<open>p\<close>.
\<close>

theorem duplicate_check_precedes_validation:
  assumes "buildPluginsParameters vn rs vv earlier [] = Inr m"
      and "globalParameters plugin = Some (ps1 @ p # ps2)"
      and "buildPluginParameters vn rs vv (id_plugin plugin) ps1 m = Inr m'"
      and "Map_get m' (arg_name p) = Some existing"
  shows "buildGlobalParametersMap vn rs vv (earlier @ plugin # later) =
           Inl (GLOBAL_PARAMETER_ALREADY_DEFINED
                  (id_plugin plugin) (arg_name p) (pluginId existing))"
  using assms
  by (simp add: buildGlobalParametersMap_def buildPluginsParameters_append
                buildPluginParameters_append)

theorem duplicate_check_precedes_validation_witness:
  "buildGlobalParameterDefinition isValidParamNameCasing RESERVED_PARAMETER_NAMES
      (isParameterValueValid anyNumber) globalParameterDefinitionBadDefault =
     Inl (INVALID_VALUE_FOR_TYPE (StringValue ''bar'') ''defaultValue'' (Some BOOLEAN))
   \<and> buildGlobalParametersMap isValidParamNameCasing RESERVED_PARAMETER_NAMES
      (isParameterValueValid anyNumber)
      [pluginWith ''plugin1'' [globalParameterDefinition],
       pluginWith ''plugin2'' [globalParameterDefinitionBadDefault]] =
     Inl (GLOBAL_PARAMETER_ALREADY_DEFINED ''plugin2'' ''param1'' ''plugin1'')"
proof -
  let ?vv = "isParameterValueValid anyNumber"
  let ?m = "[(''param1'', \<lparr> pluginId = ''plugin1'',
               param = \<lparr> name = ''param1'', description = ''param1 description'',
                         parameterType = BOOLEAN, defaultValue = BooleanValue True \<rparr> \<rparr>)]"
  have h1: "buildPluginsParameters isValidParamNameCasing RESERVED_PARAMETER_NAMES ?vv
              [pluginWith ''plugin1'' [globalParameterDefinition]] [] = Inr ?m"
    by (simp add: fixture_defs)
  have h2: "globalParameters (pluginWith ''plugin2'' [globalParameterDefinitionBadDefault]) =
              Some ([] @ globalParameterDefinitionBadDefault # [])"
    by (simp add: pluginWith_def)
  have h3: "buildPluginParameters isValidParamNameCasing RESERVED_PARAMETER_NAMES ?vv
              (id_plugin (pluginWith ''plugin2'' [globalParameterDefinitionBadDefault])) [] ?m = Inr ?m"
    by simp
  have h4: "Map_get ?m (arg_name globalParameterDefinitionBadDefault) =
              Some \<lparr> pluginId = ''plugin1'',
               param = \<lparr> name = ''param1'', description = ''param1 description'',
                         parameterType = BOOLEAN, defaultValue = BooleanValue True \<rparr> \<rparr>"
    by (simp add: fixture_defs)
  have bad: "buildGlobalParameterDefinition isValidParamNameCasing RESERVED_PARAMETER_NAMES
      ?vv globalParameterDefinitionBadDefault =
     Inl (INVALID_VALUE_FOR_TYPE (StringValue ''bar'') ''defaultValue'' (Some BOOLEAN))"
    by (simp add: fixture_defs)
  show ?thesis
    using duplicate_check_precedes_validation [OF h1 h2 h3 h4, of "[]"] bad
    by (simp add: fixture_defs)
qed

lemma buildDeclarations_append:
  "buildDeclarations vn rs vv (ds1 @ ds2) m =
     (case buildDeclarations vn rs vv ds1 m of
        Inl e \<Rightarrow> Inl e
      | Inr m' \<Rightarrow> buildDeclarations vn rs vv ds2 m')"
  by (induction ds1 arbitrary: m) (auto split: sum.splits)

lemma buildPluginParameters_declarations:
  "buildPluginParameters vn rs vv pid ps m =
     buildDeclarations vn rs vv (map (\<lambda>p. (pid, p)) ps) m"
  by (induction ps arbitrary: m) (auto split: option.splits sum.splits)

lemma buildPluginsParameters_declarations:
  "buildPluginsParameters vn rs vv plugins m =
     buildDeclarations vn rs vv (declarations plugins) m"
proof (induction plugins arbitrary: m)
  case Nil
  show ?case by (simp add: declarations_def)
next
  case (Cons plugin plugins)
  have unfold: "declarations (plugin # plugins) =
      (case globalParameters plugin of None \<Rightarrow> []
       | Some ps \<Rightarrow> map (\<lambda>p. (id_plugin plugin, p)) ps) @ declarations plugins"
    by (simp add: declarations_def)
  show ?case
    by (cases "globalParameters plugin")
       (simp_all add: unfold Cons.IH buildDeclarations_append
          buildPluginParameters_declarations split: sum.splits)
qed

lemma buildGlobalParameterDefinition_name:
  "buildGlobalParameterDefinition vn rs vv p = Inr g \<Longrightarrow> name g = arg_name p"
  by (auto simp: buildGlobalParameterDefinition_def Let_def split: if_splits)

lemma buildDeclarations_step:
  "buildDeclarations vn rs vv ((pid, p) # ds) m =
     (case Map_get m (arg_name p) of
        Some existingByName \<Rightarrow>
          Inl (GLOBAL_PARAMETER_ALREADY_DEFINED pid (arg_name p) (pluginId existingByName))
      | None \<Rightarrow>
         (case buildGlobalParameterDefinition vn rs vv p of
            Inl e \<Rightarrow> Inl e
          | Inr g \<Rightarrow>
              buildDeclarations vn rs vv ds
                (Map_set m (arg_name p) \<lparr> pluginId = pid, param = g \<rparr>)))"
  by (auto split: option.splits sum.splits dest: buildGlobalParameterDefinition_name)

lemma buildDeclarations_keeps:
  "buildDeclarations vn rs vv ds m = Inr m' \<Longrightarrow> Map_get m k = Some e \<Longrightarrow> Map_get m' k = Some e"
proof (induction ds arbitrary: m)
  case Nil
  then show ?case by simp
next
  case (Cons d ds)
  obtain pid p where d: "d = (pid, p)" by (cases d)
  from Cons.prems(1) obtain g where
      absent: "Map_get m (arg_name p) = None"
    and rest: "buildDeclarations vn rs vv ds
                 (Map_set m (arg_name p) \<lparr> pluginId = pid, param = g \<rparr>) = Inr m'"
    unfolding d buildDeclarations_step by (auto split: option.splits sum.splits)
  from absent Cons.prems(2) have "k \<noteq> arg_name p" by auto
  with Cons.prems(2) have
    "Map_get (Map_set m (arg_name p) \<lparr> pluginId = pid, param = g \<rparr>) k = Some e"
    by (simp add: Map_get_def Map_set_def update_conv')
  from Cons.IH [OF rest this] show ?case .
qed

lemma buildDeclarations_owner:
  "buildDeclarations vn rs vv ds m = Inr m' \<Longrightarrow> (q, d) \<in> set ds \<Longrightarrow>
     \<exists>e. Map_get m' (arg_name d) = Some e \<and> pluginId e = q"
proof (induction ds arbitrary: m)
  case Nil
  then show ?case by simp
next
  case (Cons x ds)
  obtain pid p where x: "x = (pid, p)" by (cases x)
  from Cons.prems(1) obtain g where
      rest: "buildDeclarations vn rs vv ds
                 (Map_set m (arg_name p) \<lparr> pluginId = pid, param = g \<rparr>) = Inr m'"
    unfolding x buildDeclarations_step by (auto split: option.splits sum.splits)
  show ?case
  proof (cases "(q, d) = (pid, p)")
    case True
    have "Map_get (Map_set m (arg_name p) \<lparr> pluginId = pid, param = g \<rparr>) (arg_name p)
            = Some \<lparr> pluginId = pid, param = g \<rparr>"
      by (simp add: Map_get_def Map_set_def update_conv')
    from buildDeclarations_keeps [OF rest this] True show ?thesis by auto
  next
    case False
    with Cons.prems(2) x have "(q, d) \<in> set ds" by auto
    from Cons.IH [OF rest this] show ?thesis .
  qed
qed

lemma buildDeclarations_succeeds:
  assumes "\<forall>(q, d) \<in> set ds. \<exists>g. buildGlobalParameterDefinition vn rs vv d = Inr g"
      and "distinct (map (\<lambda>(q, d). arg_name d) ds)"
      and "\<forall>(q, d) \<in> set ds. Map_get m (arg_name d) = None"
  shows "\<exists>m'. buildDeclarations vn rs vv ds m = Inr m'"
  using assms
proof (induction ds arbitrary: m)
  case Nil
  then show ?case by simp
next
  case (Cons x ds)
  obtain pid p where x: "x = (pid, p)" by (cases x)
  from Cons.prems(1) x obtain g where g: "buildGlobalParameterDefinition vn rs vv p = Inr g"
    by auto
  from Cons.prems(3) x have absent: "Map_get m (arg_name p) = None" by auto
  let ?m = "Map_set m (arg_name p) \<lparr> pluginId = pid, param = g \<rparr>"
  have "\<forall>(q, d) \<in> set ds. Map_get ?m (arg_name d) = None"
  proof (clarify)
    fix q d assume in_ds: "(q, d) \<in> set ds"
    with Cons.prems(2) x have "arg_name d \<noteq> arg_name p" by force
    moreover from in_ds Cons.prems(3) have "Map_get m (arg_name d) = None" by auto
    ultimately show "Map_get ?m (arg_name d) = None"
      by (simp add: Map_get_def Map_set_def update_conv')
  qed
  moreover from Cons.prems(1) have
    "\<forall>(q, d) \<in> set ds. \<exists>g. buildGlobalParameterDefinition vn rs vv d = Inr g" by auto
  moreover from Cons.prems(2) have "distinct (map (\<lambda>(q, d). arg_name d) ds)" by simp
  ultimately obtain m' where "buildDeclarations vn rs vv ds ?m = Inr m'"
    using Cons.IH by blast
  with g absent show ?case unfolding x buildDeclarations_step by simp
qed

text \<open>
  C5 (amended). Let the plugin list declare \<open>p\<close> (in plugin \<open>later\<close>) after the
  declarations \<open>before\<close>, where every declaration of \<open>before\<close> is accepted by
  \<^verbatim>\<open>buildGlobalParameterDefinition\<close> and no two of them share a name, and let \<open>p0\<close>,
  declared by plugin \<open>earlier\<close> among them, have the name of \<open>p\<close>. Then the call fails
  with \<open>GLOBAL_PARAMETER_ALREADY_DEFINED\<close> carrying the id of the later plugin, the name,
  and the id of the earlier plugin.
\<close>

theorem redeclaration_fails_naming_both_plugins:
  assumes "declarations plugins = before @ (later, p) # after"
      and "\<forall>(q, d) \<in> set before. \<exists>g. buildGlobalParameterDefinition vn rs vv d = Inr g"
      and "distinct (map (\<lambda>(q, d). arg_name d) before)"
      and "(earlier, p0) \<in> set before"
      and "arg_name p0 = arg_name p"
  shows "buildGlobalParametersMap vn rs vv plugins =
           Inl (GLOBAL_PARAMETER_ALREADY_DEFINED later (arg_name p) earlier)"
proof -
  have "\<forall>(q, d) \<in> set before. Map_get ([] :: 'a GlobalParametersMap) (arg_name d) = None"
    by (simp add: Map_get_def)
  from buildDeclarations_succeeds [OF assms(2) assms(3) this]
  obtain m where m: "buildDeclarations vn rs vv before [] = Inr m" by blast
  from buildDeclarations_owner [OF m assms(4)] assms(5)
  obtain e where e: "Map_get m (arg_name p) = Some e" "pluginId e = earlier" by auto
  show ?thesis
    by (simp add: buildGlobalParametersMap_def buildPluginsParameters_declarations
          assms(1) buildDeclarations_append m buildDeclarations_step e)
qed

theorem redeclaration_fails_naming_both_plugins_witness:
  "buildGlobalParametersMap isValidParamNameCasing RESERVED_PARAMETER_NAMES
      (isParameterValueValid anyNumber)
      [pluginWith ''plugin1'' [globalParameterDefinition],
       pluginWith ''plugin2'' [globalParameterDefinition2]] =
     Inl (GLOBAL_PARAMETER_ALREADY_DEFINED ''plugin2'' ''param1'' ''plugin1'')"
proof -
  let ?vv = "isParameterValueValid anyNumber"
  let ?before = "[(''plugin1'', globalParameterDefinition)]"
  have h1: "declarations [pluginWith ''plugin1'' [globalParameterDefinition],
                          pluginWith ''plugin2'' [globalParameterDefinition2]] =
              ?before @ (''plugin2'', globalParameterDefinition2) # []"
    by (simp add: declarations_def pluginWith_def)
  have h2: "\<forall>(q, d) \<in> set ?before.
              \<exists>g. buildGlobalParameterDefinition isValidParamNameCasing
                     RESERVED_PARAMETER_NAMES ?vv d = Inr g"
    by (simp add: fixture_defs)
  have h3: "distinct (map (\<lambda>(q, d). arg_name d) ?before)" by simp
  have h4: "(''plugin1'', globalParameterDefinition) \<in> set ?before" by simp
  have h5: "arg_name globalParameterDefinition = arg_name globalParameterDefinition2"
    by (simp add: fixture_defs)
  show ?thesis
    using redeclaration_fails_naming_both_plugins [OF h1 h2 h3 h4 h5]
    by (simp add: globalParameterDefinition2_def)
qed

theorem redeclaration_after_invalid_name_counterexample:
  "buildGlobalParametersMap isValidParamNameCasing RESERVED_PARAMETER_NAMES
      (isParameterValueValid anyNumber)
      [pluginWith ''plugin1'' [fooBarDefinition],
       pluginWith ''plugin2'' [fooBarDefinition]] = Inl (INVALID_NAME ''foo bar'')
   \<and> buildGlobalParametersMap isValidParamNameCasing RESERVED_PARAMETER_NAMES
      (isParameterValueValid anyNumber)
      [pluginWith ''plugin1'' [fooBarDefinition],
       pluginWith ''plugin2'' [fooBarDefinition]] \<noteq>
     Inl (GLOBAL_PARAMETER_ALREADY_DEFINED ''plugin2'' ''foo bar'' ''plugin1'')"
  by (simp add: buildGlobalParametersMap_def fixture_defs)

section \<open>Properties of \<^verbatim>\<open>buildGlobalParameterDefinition\<close>\<close>

text \<open>
  C7 (amended). When the name passes the casing check and is not reserved, and the
  default value fails validation against the resolved type (the declared type, or
  STRING when none is declared), \<^verbatim>\<open>buildGlobalParameterDefinition\<close> raises
  \<open>INVALID_VALUE_FOR_TYPE\<close> carrying the offending value, the fixed name
  \<^verbatim>\<open>"defaultValue"\<close> and, when a type is declared, that type.
\<close>

theorem invalid_default_value_error:
  assumes "vn (arg_name a)" and "arg_name a \<notin> rs"
      and "\<not> vv (case arg_parameterType a of Some t \<Rightarrow> t | None \<Rightarrow> STRING) (arg_defaultValue a)"
  shows "\<exists>ty. buildGlobalParameterDefinition vn rs vv a =
                 Inl (INVALID_VALUE_FOR_TYPE (arg_defaultValue a) ''defaultValue'' ty)
              \<and> (\<forall>t. arg_parameterType a = Some t \<longrightarrow> ty = Some t)"
  using assms by (simp add: buildGlobalParameterDefinition_def)

theorem invalid_default_value_error_witness:
  "buildGlobalParameterDefinition isValidParamNameCasing RESERVED_PARAMETER_NAMES
      (isParameterValueValid anyNumber) fooBadDefaultDefinition =
     Inl (INVALID_VALUE_FOR_TYPE (StringValue ''bar'') ''defaultValue'' (Some BOOLEAN))"
proof -
  let ?vv = "isParameterValueValid anyNumber"
  have h1: "isValidParamNameCasing (arg_name fooBadDefaultDefinition)"
    by (simp add: fixture_defs)
  have h2: "arg_name fooBadDefaultDefinition \<notin> RESERVED_PARAMETER_NAMES"
    by (simp add: fixture_defs)
  have h3: "\<not> ?vv (case arg_parameterType fooBadDefaultDefinition of
                      Some t \<Rightarrow> t | None \<Rightarrow> STRING)
                   (arg_defaultValue fooBadDefaultDefinition)"
    by (simp add: fixture_defs)
  from invalid_default_value_error
         [where vn = isValidParamNameCasing and rs = RESERVED_PARAMETER_NAMES
            and vv = "?vv" and a = fooBadDefaultDefinition, OF h1 h2 h3]
  obtain ty where
      "buildGlobalParameterDefinition isValidParamNameCasing RESERVED_PARAMETER_NAMES
         ?vv fooBadDefaultDefinition =
       Inl (INVALID_VALUE_FOR_TYPE (arg_defaultValue fooBadDefaultDefinition)
              ''defaultValue'' ty)"
    and "\<forall>t. arg_parameterType fooBadDefaultDefinition = Some t \<longrightarrow> ty = Some t"
    by blast
  then show ?thesis by (simp add: fooBadDefaultDefinition_def)
qed

theorem invalid_default_value_error_name_counterexample:
  "\<not> isParameterValueValid anyNumber BOOLEAN (arg_defaultValue fooBadDefaultDefinition)
   \<and> buildGlobalParameterDefinition isValidParamNameCasing RESERVED_PARAMETER_NAMES
      (isParameterValueValid anyNumber) fooBadDefaultDefinition =
     Inl (INVALID_VALUE_FOR_TYPE (StringValue ''bar'') ''defaultValue'' (Some BOOLEAN))
   \<and> buildGlobalParameterDefinition isValidParamNameCasing RESERVED_PARAMETER_NAMES
      (isParameterValueValid anyNumber) fooBadDefaultDefinition \<noteq>
     Inl (INVALID_VALUE_FOR_TYPE (arg_defaultValue fooBadDefaultDefinition)
            (arg_name fooBadDefaultDefinition) (Some BOOLEAN))"
  by (simp add: fixture_defs)

section \<open>Properties of \<^verbatim>\<open>resolveGlobalArguments\<close>\<close>

lemma upper_snake_param1: "toUpperCase (camelToSnakeCase ''param1'') = ''PARAM1''"
  by code_simp

lemma upper_snake_param2: "toUpperCase (camelToSnakeCase ''param2'') = ''PARAM2''"
  by code_simp

lemma upper_snake_param3: "toUpperCase (camelToSnakeCase ''param3'') = ''PARAM3''"
  by code_simp

lemma upper_snake_fooBar: "toUpperCase (camelToSnakeCase ''fooBar'') = ''FOO_BAR''"
  by code_simp

lemma envVarName_param1: "envVarName camelToSnakeCase ''param1'' = ''HARDHAT_PARAM1''"
  unfolding envVarName_def upper_snake_param1 by simp

lemma envVarName_param2: "envVarName camelToSnakeCase ''param2'' = ''HARDHAT_PARAM2''"
  unfolding envVarName_def upper_snake_param2 by simp

lemma envVarName_param3: "envVarName camelToSnakeCase ''param3'' = ''HARDHAT_PARAM3''"
  unfolding envVarName_def upper_snake_param3 by simp

lemma envVarName_fooBar: "envVarName camelToSnakeCase ''fooBar'' = ''HARDHAT_FOO_BAR''"
  unfolding envVarName_def upper_snake_fooBar by simp

lemma parseBigInt_5n: "parseBigInt ''5n'' = Some 5"
  by code_simp

lemma envVarName_not_inherited: "envVarName c2s nm \<notin> ObjectPrototypeNames"
  by (simp add: envVarName_def ObjectPrototypeNames_def)

lemmas resolve_defs = resolveGlobalArguments_def chosenValue_def getProperty_def
  ObjectPrototypeNames_def parseParameterValue_def
  param1_def param2_def param3_def fooBar_def
  envVarName_param1 envVarName_param2 envVarName_param3 envVarName_fooBar parseBigInt_5n


lemma resolveEntries_other:
  "resolveEntries parse c2s env ua gpm acc = Inr ga \<Longrightarrow> nm \<notin> fst ` set gpm \<Longrightarrow> ga nm = acc nm"
proof (induction gpm arbitrary: acc)
  case Nil
  then show ?case by simp
next
  case (Cons x gpm)
  obtain k e where x: "x = (k, e)" by (cases x)
  from Cons.prems(2) x have ne: "nm \<noteq> k" and rest: "nm \<notin> fst ` set gpm" by auto
  from Cons.prems(1) obtain v where
    "resolveEntries parse c2s env ua gpm (acc(k \<mapsto> v)) = Inr ga"
    unfolding x by (auto split: option.splits sum.splits)
  from Cons.IH [OF this rest] ne show ?case by simp
qed

lemma resolveEntries_dom:
  "resolveEntries parse c2s env ua gpm acc = Inr ga \<Longrightarrow> dom ga = dom acc \<union> fst ` set gpm"
proof (induction gpm arbitrary: acc)
  case Nil
  then show ?case by simp
next
  case (Cons x gpm)
  obtain k e where x: "x = (k, e)" by (cases x)
  from Cons.prems(1) obtain v where
    "resolveEntries parse c2s env ua gpm (acc(k \<mapsto> v)) = Inr ga"
    unfolding x by (auto split: option.splits sum.splits)
  from Cons.IH [OF this] show ?case by (auto simp: x)
qed

lemma resolveEntries_precedence:
  "resolveEntries parse c2s env ua gpm acc = Inr ga \<Longrightarrow> distinct (map fst gpm) \<Longrightarrow>
   (nm, entry) \<in> set gpm \<Longrightarrow>
   \<exists>v. ga nm = Some v \<and> resolvedFrom parse c2s env ua nm entry v"
proof (induction gpm arbitrary: acc)
  case Nil
  then show ?case by simp
next
  case (Cons x gpm)
  obtain k e where x: "x = (k, e)" by (cases x)
  from Cons.prems(1) obtain v where
      v: "resolvedFrom parse c2s env ua k e v"
    and rest: "resolveEntries parse c2s env ua gpm (acc(k \<mapsto> v)) = Inr ga"
    unfolding x resolvedFrom_def
    by (auto simp: chosenValue_def envVarName_def split: option.splits sum.splits)
  from Cons.prems(2) x have k_fresh: "k \<notin> fst ` set gpm" and dist: "distinct (map fst gpm)"
    by auto
  show ?case
  proof (cases "(nm, entry) = (k, e)")
    case True
    from resolveEntries_other [OF rest k_fresh] have "ga k = Some v" by simp
    with v True show ?thesis by auto
  next
    case False
    with Cons.prems(3) x have "(nm, entry) \<in> set gpm" by auto
    from Cons.IH [OF rest dist this] show ?thesis .
  qed
qed

text \<open>
  The sources of a resolved value, as the loop takes them. Let the registry have
  distinct keys, as a \<^verbatim>\<open>Map\<close> has, and let the call return \<open>globalArguments\<close>. Then
  for every entry \<open>(nm, entry)\<close> of the registry the returned value of \<open>nm\<close> is: when
  the user-provided arguments have the property \<open>nm\<close> with a raw string, that string
  parsed against the declared type; when they inherit \<open>nm\<close> from \<^verbatim>\<open>Object.prototype\<close>,
  the inherited member parsed; otherwise, when the environment variable
  \<^verbatim>\<open>HARDHAT_\<close> followed by the upper-cased snake-case form of \<open>nm\<close> is set, that string
  parsed; otherwise the default value of the definition itself, with no call of the
  parser.
\<close>

lemma resolveGlobalArguments_sources:
  assumes "distinct (map fst globalParametersMap)"
      and "resolveGlobalArguments parse c2s env ua globalParametersMap = Inr globalArguments"
      and "(nm, entry) \<in> set globalParametersMap"
  shows "\<exists>v. globalArguments nm = Some v \<and>
           (case ua nm of
              Some (Some raw) \<Rightarrow> parse (StringRaw raw) (parameterType (param entry)) nm = Inr v
            | _ \<Rightarrow>
               if ua nm = None \<and> nm \<in> ObjectPrototypeNames
               then parse (InheritedMember nm) (parameterType (param entry)) nm = Inr v
               else (case env (''HARDHAT_'' @ toUpperCase (c2s nm)) of
                       Some raw \<Rightarrow>
                         parse (StringRaw raw) (parameterType (param entry)) nm = Inr v
                     | None \<Rightarrow> v = defaultValue (param entry)))"
proof -
  from resolveEntries_precedence
         [OF assms(2) [unfolded resolveGlobalArguments_def] assms(1) assms(3)]
  obtain v where "globalArguments nm = Some v" "resolvedFrom parse c2s env ua nm entry v"
    by blast
  then show ?thesis
    by (auto simp: resolvedFrom_def getProperty_def split: option.splits if_splits)
qed

text \<open>
  The name of the environment variable of the parameter \<^verbatim>\<open>fooBar\<close> is
  \<^verbatim>\<open>HARDHAT_FOO_BAR\<close>: with no user-provided argument and that variable set, the
  parameter resolves to the string of the variable, and with the variable unset to
  its default value.
\<close>

lemma resolveGlobalArguments_fooBar:
  "resolveGlobalArguments (parseParameterValue (parsingRule noNumbers) rejectInherited)
      camelToSnakeCase [''HARDHAT_FOO_BAR'' \<mapsto> ''env''] Map.empty [(''fooBar'', fooBar)] =
     Inr [''fooBar'' \<mapsto> StringValue ''env'']
   \<and> resolveGlobalArguments (parseParameterValue (parsingRule noNumbers) rejectInherited)
      camelToSnakeCase [''HARDHAT_FOOBAR'' \<mapsto> ''env''] Map.empty [(''fooBar'', fooBar)] =
     Inr [''fooBar'' \<mapsto> StringValue ''default'']"
  by (simp add: resolve_defs)

text \<open>
  C2. The claim fails on the code for a parameter whose name \<^verbatim>\<open>Object.prototype\<close>
  defines. A plugin can declare the parameter \<^verbatim>\<open>toString\<close>:
  \<^verbatim>\<open>buildGlobalParametersMap\<close> accepts it. With the user-provided arguments \<^verbatim>\<open>{}\<close> the
  read \<^verbatim>\<open>userProvidedGlobalArguments["toString"]\<close> gives the inherited function, which
  is not \<^verbatim>\<open>undefined\<close>, so the code hands it to the parser: the result is what the
  parser makes of the inherited member, whatever the environment and the default
  value are.
\<close>

theorem resolveGlobalArguments_inherited_member:
  "buildGlobalParametersMap isValidParamNameCasing RESERVED_PARAMETER_NAMES
      (isParameterValueValid anyNumber) [pluginWith ''plugin1'' [toStringDefinition]] =
     Inr [(''toString'', toStringEntry)]
   \<and> resolveGlobalArguments parse c2s env Map.empty [(''toString'', toStringEntry)] =
     (case parse (InheritedMember ''toString'') STRING ''toString'' of
        Inl e \<Rightarrow> Inl e
      | Inr v \<Rightarrow> Inr [''toString'' \<mapsto> v])"
proof
  show "buildGlobalParametersMap isValidParamNameCasing RESERVED_PARAMETER_NAMES
      (isParameterValueValid anyNumber) [pluginWith ''plugin1'' [toStringDefinition]] =
     Inr [(''toString'', toStringEntry)]"
    by (simp add: buildGlobalParametersMap_def fixture_defs toStringDefinition_def
          toStringEntry_def)
next
  show "resolveGlobalArguments parse c2s env Map.empty [(''toString'', toStringEntry)] =
     (case parse (InheritedMember ''toString'') STRING ''toString'' of
        Inl e \<Rightarrow> Inl e
      | Inr v \<Rightarrow> Inr [''toString'' \<mapsto> v])"
    by (simp add: resolveGlobalArguments_def chosenValue_def getProperty_def
          ObjectPrototypeNames_def toStringEntry_def split: sum.splits)
qed

lemma resolveEntries_cong:
  assumes "\<forall>nm \<in> fst ` set gpm. ua' nm = ua nm"
      and "\<forall>nm \<in> fst ` set gpm. env' (envVarName c2s nm) = env (envVarName c2s nm)"
  shows "resolveEntries parse c2s env' ua' gpm acc = resolveEntries parse c2s env ua gpm acc"
  using assms
proof (induction gpm arbitrary: acc)
  case Nil
  show ?case by simp
next
  case (Cons x gpm)
  obtain k e where x: "x = (k, e)" by (cases x)
  from Cons.prems x have "chosenValue c2s env' ua' k = chosenValue c2s env ua k"
    by (auto simp: chosenValue_def getProperty_def split: option.splits)
  moreover from Cons.prems have
    "\<And>acc. resolveEntries parse c2s env' ua' gpm acc = resolveEntries parse c2s env ua gpm acc"
    by (intro Cons.IH) auto
  ultimately show ?case by (simp add: x split: option.splits sum.splits)
qed

text \<open>
  C6. The returned arguments have exactly the names of the registry as their keys, and
  the call, its failures included, depends on the user-provided arguments and on the
  environment only at the names of the registry: changing either of them anywhere
  else changes nothing.
\<close>

theorem resolveGlobalArguments_registry_only:
  "(resolveGlobalArguments parse c2s env ua gpm = Inr globalArguments \<longrightarrow>
      dom globalArguments = fst ` set gpm)
   \<and> ((\<forall>nm \<in> fst ` set gpm. ua' nm = ua nm \<and>
          env' (envVarName c2s nm) = env (envVarName c2s nm)) \<longrightarrow>
      resolveGlobalArguments parse c2s env' ua' gpm =
      resolveGlobalArguments parse c2s env ua gpm)"
proof (intro conjI impI)
  assume "resolveGlobalArguments parse c2s env ua gpm = Inr globalArguments"
  from resolveEntries_dom [OF this [unfolded resolveGlobalArguments_def]]
  show "dom globalArguments = fst ` set gpm" by simp
next
  assume "\<forall>nm \<in> fst ` set gpm. ua' nm = ua nm \<and>
            env' (envVarName c2s nm) = env (envVarName c2s nm)"
  then show "resolveGlobalArguments parse c2s env' ua' gpm =
             resolveGlobalArguments parse c2s env ua gpm"
    unfolding resolveGlobalArguments_def by (intro resolveEntries_cong) auto
qed

theorem resolveGlobalArguments_registry_only_witness:
  "resolveGlobalArguments (parseParameterValue (parsingRule noNumbers) rejectInherited)
      camelToSnakeCase [''HARDHAT_PARAM3'' \<mapsto> ''env'']
      [''param1'' \<mapsto> Some ''false'', ''param2'' \<mapsto> Some ''user'']
      [(''param1'', param1)] =
     Inr [''param1'' \<mapsto> BooleanValue False]
   \<and> dom [''param1'' \<mapsto> BooleanValue False :: int ParameterValue] = {''param1''}"
proof -
  let ?parse = "parseParameterValue (parsingRule noNumbers) rejectInherited"
  let ?gpm = "[(''param1'', param1)]"
  let ?ga = "[''param1'' \<mapsto> BooleanValue False] :: int GlobalArguments"
  let ?ua' = "[''param1'' \<mapsto> Some ''false'', ''param2'' \<mapsto> Some ''user'']"
  let ?env' = "[''HARDHAT_PARAM3'' \<mapsto> ''env'']"
  let ?ua = "[''param1'' \<mapsto> Some ''false'']"
  let ?env = "Map.empty :: string \<rightharpoonup> string"
  have h1: "resolveGlobalArguments ?parse camelToSnakeCase ?env ?ua ?gpm = Inr ?ga"
    by (simp add: resolve_defs)
  have h2: "\<forall>nm \<in> fst ` set ?gpm. ?ua' nm = ?ua nm \<and>
              ?env' (envVarName camelToSnakeCase nm) = ?env (envVarName camelToSnakeCase nm)"
    by (simp add: envVarName_param1)
  note inst = resolveGlobalArguments_registry_only
    [where parse = "?parse" and c2s = camelToSnakeCase and env = "?env" and ua = "?ua"
       and gpm = "?gpm" and globalArguments = "?ga" and ua' = "?ua'" and env' = "?env'"]
  from inst h1 have d: "dom ?ga = fst ` set ?gpm" by blast
  from inst h2 have "resolveGlobalArguments ?parse camelToSnakeCase ?env' ?ua' ?gpm =
                    resolveGlobalArguments ?parse camelToSnakeCase ?env ?ua ?gpm" by blast
  with h1 d show ?thesis by simp
qed



section \<open>Properties of the hook manager\<close>

lemma getHandlers_newHookManager [simp]:
  "getHandlers (newHookManager ctx) category hookName = []"
  by (simp add: getHandlers_def newHookManager_def)

lemma getHandlers_registerHandler:
  "getHandlers (registerHandler hm category hookName handler) category' hookName' =
     (if category' = category \<and> hookName' = hookName
      then getHandlers hm category hookName @ [handler]
      else getHandlers hm category' hookName')"
  by (simp add: getHandlers_def registerHandler_def)

lemma hookContext_registerHandler [simp]:
  "hookContext (registerHandler hm category hookName handler) = hookContext hm"
  by (simp add: registerHandler_def)

lemma registerHandlers_single [simp]:
  "registerHandlers hm category [(hookName, handler)] =
     registerHandler hm category hookName handler"
  by (simp add: registerHandlers_def)

lemma hookContext_newHookManager [simp]: "hookContext (newHookManager ctx) = ctx"
  by (simp add: newHookManager_def)

lemma getHandlers_three:
  "getHandlers
      (registerHandlers (registerHandlers (registerHandlers (newHookManager ctx)
         category [(hookName, H1)]) category [(hookName, H2)]) category [(hookName, H3)])
      category hookName = [H1, H2, H3]"
  by (simp add: getHandlers_registerHandler)

lemma handlerParams_three:
  "handlerParams
      (registerHandlers (registerHandlers (registerHandlers (newHookManager ctx)
         category [(hookName, H1)]) category [(hookName, H2)]) category [(hookName, H3)])
      category args = (if category = ''config'' then args else ctx # args)"
  by (simp add: handlerParams_def)

lemma composeChain_three:
  "composeChain [H1, H2, H3] d =
     (\<lambda>params. H3 params (\<lambda>params3. H2 params3 (\<lambda>params2. H1 params2 d)))"
  by (simp add: composeChain_def)

lemma tracing_three:
  "tracingHandler ''third'' params
     (\<lambda>params3. tracingHandler ''second'' params3
        (\<lambda>params2. tracingHandler ''first'' params2 (tracingDefault r))) [] =
   (Inr r, [''third:before'', ''second:before'', ''first:before'', ''default'',
            ''first:after'', ''second:after'', ''third:after''])"
  by (simp add: tracingHandler_def tracingDefault_def)

text \<open>
  C1. Let the handlers \<open>H1\<close>, \<open>H2\<close>, \<open>H3\<close> be registered in that order for one category
  and hook name on a new manager. Then \<^verbatim>\<open>runHandlerChain\<close> calls \<open>H3\<close> with the handler
  arguments; the \<^verbatim>\<open>next\<close> of \<open>H3\<close> calls \<open>H2\<close>, the \<^verbatim>\<open>next\<close> of \<open>H2\<close> calls \<open>H1\<close>, and the
  \<^verbatim>\<open>next\<close> of \<open>H1\<close> is the supplied default implementation. For the three handlers of
  the test, each pushing its label before and after awaiting \<^verbatim>\<open>next\<close>, the observed
  sequence is: third, second and first enter, the default implementation runs,
  first, second and third exit.
\<close>

theorem runHandlerChain_onion:
  "runHandlerChain
      (registerHandlers (registerHandlers (registerHandlers (newHookManager ctx)
         category [(hookName, H1)]) category [(hookName, H2)]) category [(hookName, H3)])
      category hookName args defaultImplementation =
     H3 (if category = ''config'' then args else ctx # args)
        (\<lambda>params3. H2 params3 (\<lambda>params2. H1 params2 defaultImplementation))
   \<and> runHandlerChain
      (registerHandlers (registerHandlers (registerHandlers (newHookManager ctx')
         category [(hookName, tracingHandler ''first'')])
         category [(hookName, tracingHandler ''second'')])
         category [(hookName, tracingHandler ''third'')])
      category hookName args' (tracingDefault r) [] =
     (Inr r, [''third:before'', ''second:before'', ''first:before'', ''default'',
              ''first:after'', ''second:after'', ''third:after''])"
  unfolding runHandlerChain_def getHandlers_three handlerParams_three composeChain_three
  by (simp only: tracing_three simp_thms)

text \<open>
  C4. Let the handlers \<open>H1\<close>, \<open>H2\<close>, \<open>H3\<close> be registered in that order on a new manager,
  and let \<open>H3\<close> return \<open>r3\<close> from the initial world, then \<open>H2\<close> return \<open>r2\<close> from the world
  that \<open>H3\<close> left, then \<open>H1\<close> return \<open>r1\<close> from the world that \<open>H2\<close> left, all three called
  with the same handler arguments. Then \<^verbatim>\<open>runSequentialHandlers\<close> returns
  \<open>[r3, r2, r1]\<close> and leaves the world that \<open>H1\<close> left. With no handler registered it
  returns the empty list and leaves the world as it is.
\<close>

theorem runSequentialHandlers_reverse_order:
  assumes "H3 (if category = ''config'' then args else ctx # args) s0 = (Inr r3, s1)"
      and "H2 (if category = ''config'' then args else ctx # args) s1 = (Inr r2, s2)"
      and "H1 (if category = ''config'' then args else ctx # args) s2 = (Inr r1, s3)"
  shows "runSequentialHandlers
           (registerHandlers (registerHandlers (registerHandlers
              (newHookManager ctx :: ('a, ('a, 'e, 'r, 's) implementation) HookManager)
              category [(hookName, H1)]) category [(hookName, H2)]) category [(hookName, H3)])
           category hookName args s0 = (Inr [r3, r2, r1], s3)
       \<and> runSequentialHandlers
           (newHookManager ctx :: ('a, ('a, 'e, 'r, 's) implementation) HookManager)
           category hookName args s0 = (Inr [], s0)"
proof -
  let ?params = "if category = ''config'' then args else ctx # args"
  have "sequentialCalls [H3, H2, H1] ?params s0 = (Inr [r3, r2, r1], s3)"
    using assms by simp
  then show ?thesis
    unfolding runSequentialHandlers_def getHandlers_three handlerParams_three
    by simp
qed

theorem runSequentialHandlers_reverse_order_witness:
  "runSequentialHandlers
      (registerHandlers (registerHandlers (registerHandlers
         (newHookManager ''context''
            :: (string, (string, unit, string, string list) implementation) HookManager)
         ''hre'' [(''testExample'', returning ''first'')])
         ''hre'' [(''testExample'', returning ''second'')])
         ''hre'' [(''testExample'', returning ''third'')])
      ''hre'' ''testExample'' [''input''] [] =
     (Inr [''third'', ''second'', ''first''], [''third'', ''second'', ''first''])
   \<and> runSequentialHandlers
      (newHookManager ''context''
         :: (string, (string, unit, string, string list) implementation) HookManager)
      ''hre'' ''testExample'' [''input''] [] = (Inr [], [])"
proof -
  have h3: "returning ''third''
              (if ''hre'' = ''config'' then [''input''] else ''context'' # [''input'']) [] =
            (Inr ''third'', [''third''])"
    by (simp add: returning_def)
  have h2: "returning ''second''
              (if ''hre'' = ''config'' then [''input''] else ''context'' # [''input''])
              [''third''] = (Inr ''second'', [''third'', ''second''])"
    by (simp add: returning_def)
  have h1: "returning ''first''
              (if ''hre'' = ''config'' then [''input''] else ''context'' # [''input''])
              [''third'', ''second''] = (Inr ''first'', [''third'', ''second'', ''first''])"
    by (simp add: returning_def)
  from runSequentialHandlers_reverse_order
         [where category = "''hre''" and args = "[''input'']" and ctx = "''context''"
            and hookName = "''testExample''"
            and ?H1.0 = "returning ''first''" and ?H2.0 = "returning ''second''"
            and ?H3.0 = "returning ''third''", OF h3 h2 h1]
  show ?thesis by simp
qed

lemma parallelCalls_Nil [simp]: "parallelCalls schedule [] s = ([], s)"
  by (simp add: parallelCalls.simps)

lemma nextIndex_less: "0 < n \<Longrightarrow> nextIndex schedule n < n"
  by (cases schedule) (simp_all add: nextIndex_def)

lemma parallelCalls_step:
  assumes "pending \<noteq> []"
  shows "parallelCalls schedule pending s =
     (let k = nextIndex schedule (length pending);
          rest = parallelCalls (tl schedule) (take k pending @ drop (Suc k) pending)
                   (snd (snd (pending ! k) s))
      in ((fst (pending ! k), fst (snd (pending ! k) s)) # fst rest, snd rest))"
  using assms
  by (subst parallelCalls.simps) (simp add: Let_def split: prod.splits)

lemma set_without_nth:
  "k < length xs \<Longrightarrow> set xs = insert (xs ! k) (set (take k xs @ drop (Suc k) xs))"
proof -
  assume "k < length xs"
  then have "xs = take k xs @ xs ! k # drop (Suc k) xs" by (rule id_take_nth_drop)
  then have "set xs = set (take k xs @ xs ! k # drop (Suc k) xs)" by simp
  then show ?thesis by simp
qed

lemma parallelCalls_indices:
  "fst ` set (fst (parallelCalls schedule pending s)) = fst ` set pending"
proof (induction "length pending" arbitrary: schedule pending s)
  case 0
  then show ?case by simp
next
  case (Suc n)
  then have ne: "pending \<noteq> []" by auto
  let ?k = "nextIndex schedule (length pending)"
  let ?rest = "take ?k pending @ drop (Suc ?k) pending"
  from ne have k: "?k < length pending" by (simp add: nextIndex_less)
  with Suc.hyps(2) have "n = length ?rest" by simp
  from Suc.hyps(1) [OF this]
  have IH: "\<And>schedule s. fst ` set (fst (parallelCalls schedule ?rest s)) = fst ` set ?rest" .
  show ?case
    unfolding parallelCalls_step [OF ne] Let_def
    by (simp add: IH set_without_nth [OF k] del: set_append)
qed

lemma parallelCalls_outcomes:
  "(i, outcome) \<in> set (fst (parallelCalls schedule pending s)) \<Longrightarrow>
     \<exists>call s'. (i, call) \<in> set pending \<and> outcome = fst (call s')"
proof (induction "length pending" arbitrary: schedule pending s)
  case 0
  then show ?case by simp
next
  case (Suc n)
  then have ne: "pending \<noteq> []" by auto
  let ?k = "nextIndex schedule (length pending)"
  let ?rest = "take ?k pending @ drop (Suc ?k) pending"
  let ?s' = "snd (snd (pending ! ?k) s)"
  from ne have k: "?k < length pending" by (simp add: nextIndex_less)
  with Suc.hyps(2) have len: "n = length ?rest" by simp
  from Suc.prems have
    "(i, outcome) = (fst (pending ! ?k), fst (snd (pending ! ?k) s))
     \<or> (i, outcome) \<in> set (fst (parallelCalls (tl schedule) ?rest ?s'))"
    unfolding parallelCalls_step [OF ne] Let_def by simp
  then show ?case
  proof
    assume "(i, outcome) = (fst (pending ! ?k), fst (snd (pending ! ?k) s))"
    then have "(i, snd (pending ! ?k)) = pending ! ?k" "outcome = fst (snd (pending ! ?k) s)"
      by simp_all
    with k have "(i, snd (pending ! ?k)) \<in> set pending" by (metis nth_mem)
    with \<open>outcome = fst (snd (pending ! ?k) s)\<close> show ?thesis by blast
  next
    assume "(i, outcome) \<in> set (fst (parallelCalls (tl schedule) ?rest ?s'))"
    from Suc.hyps(1) [OF len this] obtain call s' where
      "(i, call) \<in> set ?rest" "outcome = fst (call s')" by blast
    moreover have "set ?rest \<subseteq> set pending"
      using set_take_subset set_drop_subset by fastforce
    ultimately show ?thesis by blast
  qed
qed

lemma parallelCalls_world_recording:
  "\<forall>(i, call) \<in> set pending. call = recording r params \<Longrightarrow>
     snd (parallelCalls schedule pending received) =
       received @ replicate (length pending) params"
proof (induction "length pending" arbitrary: schedule pending received)
  case 0
  then show ?case by simp
next
  case (Suc n)
  then have ne: "pending \<noteq> []" by auto
  let ?k = "nextIndex schedule (length pending)"
  let ?rest = "take ?k pending @ drop (Suc ?k) pending"
  from ne have k: "?k < length pending" by (simp add: nextIndex_less)
  with Suc.hyps(2) have len: "n = length ?rest" by simp
  have sub: "set ?rest \<subseteq> set pending"
    using set_take_subset set_drop_subset by fastforce
  with Suc.prems have all_rest: "\<forall>(i, call) \<in> set ?rest. call = recording r params" by blast
  from k Suc.prems have "snd (pending ! ?k) = recording r params"
    by (metis (mono_tags, lifting) case_prodD nth_mem prod.collapse)
  then have step: "snd (snd (pending ! ?k) received) = received @ [params]"
    by (simp add: recording_def)
  have "snd (parallelCalls schedule pending received) =
          (received @ [params]) @ replicate (length ?rest) params"
    unfolding parallelCalls_step [OF ne] Let_def
    by (simp only: snd_conv step Suc.hyps(1) [OF len all_rest])
  also have "\<dots> = received @ replicate (Suc n) params"
    unfolding len [symmetric] by simp
  finally show ?case using Suc.hyps(2) by simp
qed

lemma sequentialCalls_results:
  "\<forall>handler \<in> set handlers. \<forall>s. fst (handler params s) = Inr (result handler) \<Longrightarrow>
     fst (sequentialCalls handlers params s) = Inr (map result handlers)"
proof (induction handlers arbitrary: s)
  case Nil
  show ?case by simp
next
  case (Cons handler handlers)
  from Cons.prems have "fst (handler params s) = Inr (result handler)" by simp
  then obtain s' where step: "handler params s = (Inr (result handler), s')"
    by (cases "handler params s") simp
  from Cons.prems have "fst (sequentialCalls handlers params s') = Inr (map result handlers)"
    by (intro Cons.IH) simp
  then obtain s'' where "sequentialCalls handlers params s' = (Inr (map result handlers), s'')"
    by (cases "sequentialCalls handlers params s'") simp
  with step show ?case by simp
qed

lemma firstException_None:
  "\<forall>(i, outcome) \<in> set completed. \<exists>r. outcome = Inr r \<Longrightarrow> firstException completed = None"
  by (induction completed) (auto simp: firstException_def split: sum.splits)

lemma resultsByPosition_map:
  "\<forall>i < n. map_of completed i = Some (Inr (f i)) \<Longrightarrow>
     resultsByPosition n completed = map f [0..<n]"
  by (induction n) (simp_all add: resultsByPosition_def)

lemma runParallelHandlers_unfold:
  "runParallelHandlers schedule hm category hookName args s =
     (case firstException (fst (parallelCalls schedule
              (zip [0..<length (getHandlers hm category hookName)]
                 (map (\<lambda>handler. handler (handlerParams hm category args))
                    (rev (getHandlers hm category hookName)))) s)) of
        Some e \<Rightarrow> (Inl e, snd (parallelCalls schedule
              (zip [0..<length (getHandlers hm category hookName)]
                 (map (\<lambda>handler. handler (handlerParams hm category args))
                    (rev (getHandlers hm category hookName)))) s))
      | None \<Rightarrow>
          (Inr (resultsByPosition (length (getHandlers hm category hookName))
                 (fst (parallelCalls schedule
              (zip [0..<length (getHandlers hm category hookName)]
                 (map (\<lambda>handler. handler (handlerParams hm category args))
                    (rev (getHandlers hm category hookName)))) s))),
           snd (parallelCalls schedule
              (zip [0..<length (getHandlers hm category hookName)]
                 (map (\<lambda>handler. handler (handlerParams hm category args))
                    (rev (getHandlers hm category hookName)))) s)))"
  by (cases "parallelCalls schedule
              (zip [0..<length (getHandlers hm category hookName)]
                 (map (\<lambda>handler. handler (handlerParams hm category args))
                    (rev (getHandlers hm category hookName)))) s")
     (simp add: runParallelHandlers_def Let_def split: option.splits)

lemma parallelCalls_positions:
  assumes "\<forall>call \<in> set calls. \<forall>s. \<exists>r. fst (call s) = Inr r"
  shows "\<forall>(i, outcome) \<in> set (fst (parallelCalls schedule (zip [0..<length calls] calls) s)).
           \<exists>r. outcome = Inr r"
proof (clarify)
  fix i outcome
  assume "(i, outcome) \<in> set (fst (parallelCalls schedule (zip [0..<length calls] calls) s))"
  from parallelCalls_outcomes [OF this] obtain call s' where
    "(i, call) \<in> set (zip [0..<length calls] calls)" "outcome = fst (call s')" by blast
  moreover then have "call \<in> set calls" by (auto dest: set_zip_rightD)
  ultimately show "\<exists>r. outcome = Inr r" using assms by auto
qed

lemma parallelCalls_lookup:
  assumes "\<forall>i < length calls. \<forall>s. fst ((calls ! i) s) = Inr (f i)"
      and "i < length calls"
  shows "map_of (fst (parallelCalls schedule (zip [0..<length calls] calls) s)) i =
           Some (Inr (f i))"
proof -
  let ?pending = "zip [0..<length calls] calls"
  let ?completed = "fst (parallelCalls schedule ?pending s)"
  have "fst ` set ?pending = {0..<length calls}"
    by (metis atLeastLessThan_upt length_upt map_fst_zip minus_nat.diff_0 set_map)
  with assms(2) have "i \<in> fst ` set ?completed"
    by (simp add: parallelCalls_indices)
  then obtain outcome where lookup: "map_of ?completed i = Some outcome"
    by (metis map_of_eq_None_iff not_Some_eq)
  then have "(i, outcome) \<in> set ?completed" by (rule map_of_SomeD)
  from parallelCalls_outcomes [OF this] obtain call s' where
    mem: "(i, call) \<in> set ?pending" and out: "outcome = fst (call s')" by blast
  from mem have "call = calls ! i" by (auto simp: in_set_zip)
  with out assms have "outcome = Inr (f i)" by simp
  with lookup show ?thesis by simp
qed

lemma runParallelHandlers_independent_results:
  assumes "\<forall>handler \<in> set (getHandlers hm category hookName).
             \<forall>s. fst (handler (handlerParams hm category args) s) = Inr (result handler)"
  shows "fst (runParallelHandlers schedule hm category hookName args s0) =
           Inr (map result (rev (getHandlers hm category hookName)))
       \<and> fst (runSequentialHandlers hm category hookName args s0) =
           Inr (map result (rev (getHandlers hm category hookName)))
       \<and> runParallelHandlers schedule
           (newHookManager ctx :: ('a, ('a, 'e, 'r, 's) implementation) HookManager)
           category hookName args s0 = (Inr [], s0)"
proof (intro conjI)
  let ?params = "handlerParams hm category args"
  let ?handlers = "rev (getHandlers hm category hookName)"
  let ?calls = "map (\<lambda>handler. handler ?params) ?handlers"
  let ?run = "parallelCalls schedule (zip [0..<length ?calls] ?calls) s0"
  have each: "\<forall>i < length ?calls. \<forall>s. fst ((?calls ! i) s) = Inr (result (?handlers ! i))"
    using assms by (simp add: nth_mem [of _ ?handlers, simplified])
  then have "\<forall>call \<in> set ?calls. \<forall>s. \<exists>r. fst (call s) = Inr r"
    by (metis in_set_conv_nth)
  from firstException_None [OF parallelCalls_positions [OF this]]
  have none: "firstException (fst ?run) = None" .
  have "\<forall>i < length ?calls. map_of (fst ?run) i = Some (Inr (result (?handlers ! i)))"
    using parallelCalls_lookup [OF each] by blast
  from resultsByPosition_map [OF this]
  have "resultsByPosition (length ?calls) (fst ?run) =
          map (\<lambda>i. result (?handlers ! i)) [0..<length ?calls]" .
  also have "\<dots> = map result (map ((!) ?handlers) [0..<length ?handlers])"
    by (simp add: comp_def)
  also have "\<dots> = map result ?handlers"
    by (simp only: map_nth)
  finally have "resultsByPosition (length ?calls) (fst ?run) = map result ?handlers" .
  with none show "fst (runParallelHandlers schedule hm category hookName args s0) =
           Inr (map result (rev (getHandlers hm category hookName)))"
    by (simp add: runParallelHandlers_unfold)
next
  show "fst (runSequentialHandlers hm category hookName args s0) =
           Inr (map result (rev (getHandlers hm category hookName)))"
    unfolding runSequentialHandlers_def
    using assms by (intro sequentialCalls_results) simp
next
  show "runParallelHandlers schedule
           (newHookManager ctx :: ('a, ('a, 'e, 'r, 's) implementation) HookManager)
           category hookName args s0 = (Inr [], s0)"
    by (simp add: runParallelHandlers_def firstException_def resultsByPosition_def)
qed

lemma firstException_NoneD:
  "firstException completed = None \<Longrightarrow> (i, outcome) \<in> set completed \<Longrightarrow> \<exists>r. outcome = Inr r"
  by (induction completed) (auto simp: firstException_def split: sum.splits list.splits)

lemma parallelCalls_present:
  assumes "i < length calls"
  shows "\<exists>outcome s'. map_of (fst (parallelCalls schedule (zip [0..<length calls] calls) s)) i =
            Some outcome \<and> outcome = fst ((calls ! i) s')"
proof -
  let ?pending = "zip [0..<length calls] calls"
  let ?completed = "fst (parallelCalls schedule ?pending s)"
  have "fst ` set ?pending = {0..<length calls}"
    by (metis atLeastLessThan_upt length_upt map_fst_zip minus_nat.diff_0 set_map)
  with assms have "i \<in> fst ` set ?completed"
    by (simp add: parallelCalls_indices)
  then obtain outcome where lookup: "map_of ?completed i = Some outcome"
    by (metis map_of_eq_None_iff not_Some_eq)
  then have "(i, outcome) \<in> set ?completed" by (rule map_of_SomeD)
  from parallelCalls_outcomes [OF this] obtain call s' where
    mem: "(i, call) \<in> set ?pending" and out: "outcome = fst (call s')" by blast
  from mem have "call = calls ! i" by (auto simp: in_set_zip)
  with out lookup show ?thesis by blast
qed

lemma runParallelHandlers_positions:
  assumes "runParallelHandlers schedule hm category hookName args s0 = (Inr rs, s1)"
  shows "length rs = length (getHandlers hm category hookName) \<and>
         (\<forall>i < length rs. \<exists>s. fst ((rev (getHandlers hm category hookName) ! i)
                                    (handlerParams hm category args) s) = Inr (rs ! i))"
proof -
  let ?params = "handlerParams hm category args"
  let ?handlers = "rev (getHandlers hm category hookName)"
  let ?calls = "map (\<lambda>handler. handler ?params) ?handlers"
  let ?n = "length (getHandlers hm category hookName)"
  let ?completed = "fst (parallelCalls schedule (zip [0..<?n] ?calls) s0)"
  define f where "f = (\<lambda>i. case map_of ?completed i of Some (Inr r) \<Rightarrow> r)"
  have len: "length ?calls = ?n" by simp
  from assms have none: "firstException ?completed = None"
    and rs: "rs = resultsByPosition ?n ?completed"
    unfolding runParallelHandlers_unfold by (auto split: option.splits)
  have present: "\<exists>s'. map_of ?completed i = Some (Inr (f i)) \<and>
                      fst ((?handlers ! i) ?params s') = Inr (f i)" if "i < ?n" for i
  proof -
    from that have "i < length ?calls" by simp
    from parallelCalls_present [OF this, of schedule s0]
    obtain outcome s' where
      lookup: "map_of ?completed i = Some outcome" and out: "outcome = fst ((?calls ! i) s')"
      unfolding len by blast
    from lookup have "(i, outcome) \<in> set ?completed" by (rule map_of_SomeD)
    from firstException_NoneD [OF none this] obtain r where r: "outcome = Inr r" by blast
    from lookup r have lk: "map_of ?completed i = Some (Inr r)" by simp
    then have fi: "f i = r" by (simp add: f_def)
    from that have "?calls ! i = (?handlers ! i) ?params" by simp
    with out r have "fst ((?handlers ! i) ?params s') = Inr r" by simp
    with lk show ?thesis unfolding fi by blast
  qed
  then have "\<forall>i < ?n. map_of ?completed i = Some (Inr (f i))" by blast
  from resultsByPosition_map [OF this] rs have rs_map: "rs = map f [0..<?n]" by simp
  then have "length rs = ?n" by simp
  moreover have "\<exists>s. fst ((?handlers ! i) ?params s) = Inr (rs ! i)" if "i < length rs" for i
  proof -
    from that rs_map have i: "i < ?n" by simp
    with rs_map have "rs ! i = f i" by simp
    with present [OF i] show ?thesis by auto
  qed
  ultimately show ?thesis by blast
qed

text \<open>
  C3. For every schedule of the completions: when \<^verbatim>\<open>runParallelHandlers\<close> returns a
  list, the list has one result for each registered handler, and its \<open>i\<close>-th result
  is a value returned by the \<open>i\<close>-th handler in reverse registration order (the most
  recently registered handler first), as in the list of \<^verbatim>\<open>runSequentialHandlers\<close>.
  When every registered handler returns, from every world, the value \<open>result\<close> gives
  for it, both dispatches return the same list: the results in reverse registration
  order. On a manager with no handler \<^verbatim>\<open>runParallelHandlers\<close> returns the empty list.
\<close>

theorem runParallelHandlers_sequential_order:
  "(runParallelHandlers schedule hm category hookName args s0 = (Inr rs, s1) \<longrightarrow>
      length rs = length (getHandlers hm category hookName) \<and>
      (\<forall>i < length rs. \<exists>s. fst ((rev (getHandlers hm category hookName) ! i)
                                 (handlerParams hm category args) s) = Inr (rs ! i)))
   \<and> ((\<forall>handler \<in> set (getHandlers hm category hookName).
          \<forall>s. fst (handler (handlerParams hm category args) s) = Inr (result handler)) \<longrightarrow>
        fst (runParallelHandlers schedule hm category hookName args s0) =
          Inr (map result (rev (getHandlers hm category hookName))) \<and>
        fst (runSequentialHandlers hm category hookName args s0) =
          Inr (map result (rev (getHandlers hm category hookName))))
   \<and> runParallelHandlers schedule
        (newHookManager ctx :: ('a, ('a, 'e, 'r, 's) implementation) HookManager)
        category hookName args s0 = (Inr [], s0)"
proof (intro conjI impI)
  assume "runParallelHandlers schedule hm category hookName args s0 = (Inr rs, s1)"
  from runParallelHandlers_positions [OF this]
  show "length rs = length (getHandlers hm category hookName)"
    and "\<forall>i < length rs. \<exists>s. fst ((rev (getHandlers hm category hookName) ! i)
                                 (handlerParams hm category args) s) = Inr (rs ! i)"
    by blast+
next
  assume a: "\<forall>handler \<in> set (getHandlers hm category hookName).
          \<forall>s. fst (handler (handlerParams hm category args) s) = Inr (result handler)"
  from runParallelHandlers_independent_results [OF a]
  show "fst (runParallelHandlers schedule hm category hookName args s0) =
          Inr (map result (rev (getHandlers hm category hookName)))"
    by blast
  from runParallelHandlers_independent_results [OF a]
  show "fst (runSequentialHandlers hm category hookName args s0) =
          Inr (map result (rev (getHandlers hm category hookName)))"
    by blast
next
  show "runParallelHandlers schedule
        (newHookManager ctx :: ('a, ('a, 'e, 'r, 's) implementation) HookManager)
        category hookName args s0 = (Inr [], s0)"
    by (simp add: runParallelHandlers_def firstException_def resultsByPosition_def)
qed

theorem runParallelHandlers_sequential_order_witness:
  "runParallelHandlers [1]
      (registerHandlers (registerHandlers
         (newHookManager ''context''
            :: (string, (string, unit, string, string list) implementation) HookManager)
         ''config'' [(''validateUserConfig'', returning ''first'')])
         ''config'' [(''validateUserConfig'', returning ''second'')])
      ''config'' ''validateUserConfig'' [''originalConfig''] [] =
     (Inr [''second'', ''first''], [''first'', ''second''])
   \<and> fst (runSequentialHandlers
      (registerHandlers (registerHandlers
         (newHookManager ''context''
            :: (string, (string, unit, string, string list) implementation) HookManager)
         ''config'' [(''validateUserConfig'', returning ''first'')])
         ''config'' [(''validateUserConfig'', returning ''second'')])
      ''config'' ''validateUserConfig'' [''originalConfig''] []) =
     Inr [''second'', ''first'']
   \<and> length (getHandlers
      (registerHandlers (registerHandlers
         (newHookManager ''context''
            :: (string, (string, unit, string, string list) implementation) HookManager)
         ''config'' [(''validateUserConfig'', returning ''first'')])
         ''config'' [(''validateUserConfig'', returning ''second'')])
      ''config'' ''validateUserConfig'') = 2"
proof -
  let ?hm = "registerHandlers (registerHandlers
             (newHookManager ''context''
                :: (string, (string, unit, string, string list) implementation) HookManager)
             ''config'' [(''validateUserConfig'', returning ''first'')])
             ''config'' [(''validateUserConfig'', returning ''second'')]"
  let ?result = "\<lambda>handler :: (string, unit, string, string list) implementation.
                   case fst (handler [] []) of Inr r \<Rightarrow> r | Inl e \<Rightarrow> []"
  have handlers: "getHandlers ?hm ''config'' ''validateUserConfig'' =
                    [returning ''first'', returning ''second'']"
    by (simp add: getHandlers_registerHandler)
  have h: "\<forall>handler \<in> set (getHandlers ?hm ''config'' ''validateUserConfig'').
             \<forall>s. fst (handler (handlerParams ?hm ''config'' [''originalConfig'']) s) =
                   Inr (?result handler)"
    unfolding handlers by (simp add: returning_def)
  have r: "map ?result (rev (getHandlers ?hm ''config'' ''validateUserConfig'')) =
             [''second'', ''first'']"
    unfolding handlers by (simp add: returning_def)
  have run: "runParallelHandlers [1] ?hm ''config'' ''validateUserConfig''
               [''originalConfig''] [] = (Inr [''second'', ''first''], [''first'', ''second''])"
    unfolding runParallelHandlers_unfold handlers
    by (simp add: parallelCalls_step nextIndex_def handlerParams_def returning_def
          firstException_def resultsByPosition_def)
  note inst = runParallelHandlers_sequential_order
         [where result = "?result" and hm = "?hm" and schedule = "[1]" and ?s0.0 = "[]"
            and ctx = "''context''" and category = "''config''"
            and hookName = "''validateUserConfig''" and args = "[''originalConfig'']"
            and rs = "[''second'', ''first'']" and ?s1.0 = "[''first'', ''second'']"]
  from inst run
  have "length [''second'', ''first''] = length (getHandlers ?hm ''config'' ''validateUserConfig'')"
    by blast
  moreover from inst h
  have "fst (runSequentialHandlers ?hm ''config'' ''validateUserConfig''
               [''originalConfig''] []) =
          Inr (map ?result (rev (getHandlers ?hm ''config'' ''validateUserConfig'')))"
    by blast
  then have "fst (runSequentialHandlers ?hm ''config'' ''validateUserConfig''
               [''originalConfig''] []) = Inr [''second'', ''first'']"
    unfolding r .
  ultimately show ?thesis using run by simp
qed

lemma sequentialCalls_recording:
  "sequentialCalls (replicate m (recording r)) params received =
     (Inr (replicate m r), received @ replicate m params)"
proof (induction m arbitrary: received)
  case 0
  show ?case by simp
next
  case (Suc m)
  show ?case by (simp add: Suc.IH recording_def [of r params received])
qed

lemma composeChain_Nil: "composeChain [] d = d"
  by (simp add: composeChain_def)

lemma composeChain_snoc:
  "composeChain (handlers @ [handler]) d = (\<lambda>params. handler params (composeChain handlers d))"
  by (simp add: composeChain_def)

lemma composeChain_replicate_Suc:
  "composeChain (replicate (Suc n) handler) d =
     (\<lambda>params. handler params (composeChain (replicate n handler) d))"
proof -
  have "replicate (Suc n) handler = replicate n handler @ [handler]"
    by (simp add: replicate_append_same)
  then show ?thesis by (simp only: composeChain_snoc)
qed

lemma composeChain_recording:
  "composeChain (replicate n recordingChainHandler) (recording r) params received =
     (Inr r, received @ replicate (Suc n) params)"
proof (induction n arbitrary: received)
  case 0
  show ?case by (simp add: composeChain_Nil recording_def)
next
  case (Suc n)
  show ?case
    unfolding composeChain_replicate_Suc
    by (subst recordingChainHandler_def) (simp add: Suc.IH)
qed

text \<open>
  C8. Let the handlers registered for a category and a hook name record the
  arguments they receive (\<open>n\<close> chain handlers in the manager \<open>hmc\<close>, \<open>m\<close> plain handlers
  in the manager \<open>hm\<close>), and let the default implementation of the chain record its
  arguments too. Then after \<^verbatim>\<open>runHandlerChain\<close>, \<^verbatim>\<open>runSequentialHandlers\<close> and
  \<^verbatim>\<open>runParallelHandlers\<close> (under every schedule) every recorded argument list is the
  list \<open>args\<close> of the call when the category is \<^verbatim>\<open>"config"\<close>, and the hook context
  followed by \<open>args\<close> for every other category.
\<close>

theorem handlers_receive_context_unless_config:
  assumes "getHandlers hmc category hookName = replicate n recordingChainHandler"
      and "getHandlers hm category hookName = replicate m (recording r)"
  shows "snd (runHandlerChain hmc category hookName args (recording r0) []) =
           replicate (Suc n) (if category = ''config'' then args else hookContext hmc # args)
       \<and> snd (runSequentialHandlers hm category hookName args []) =
           replicate m (if category = ''config'' then args else hookContext hm # args)
       \<and> snd (runParallelHandlers schedule hm category hookName args []) =
           replicate m (if category = ''config'' then args else hookContext hm # args)"
proof (intro conjI)
  show "snd (runHandlerChain hmc category hookName args (recording r0) []) =
           replicate (Suc n) (if category = ''config'' then args else hookContext hmc # args)"
    unfolding runHandlerChain_def assms(1) composeChain_recording handlerParams_def
    by simp
next
  show "snd (runSequentialHandlers hm category hookName args []) =
           replicate m (if category = ''config'' then args else hookContext hm # args)"
    unfolding runSequentialHandlers_def assms(2) handlerParams_def
    by (simp add: sequentialCalls_recording)
next
  let ?params = "handlerParams hm category args"
  let ?pending = "zip [0..<length (getHandlers hm category hookName)]
                    (map (\<lambda>handler. handler ?params) (rev (getHandlers hm category hookName)))"
  have "\<forall>(i, call) \<in> set ?pending. call = recording r ?params"
    unfolding assms(2) by (auto dest!: set_zip_rightD)
  from parallelCalls_world_recording [OF this]
  have "snd (parallelCalls schedule ?pending []) = replicate (length ?pending) ?params"
    by simp
  moreover have "length ?pending = m" by (simp add: assms(2))
  ultimately have "snd (parallelCalls schedule ?pending []) = replicate m ?params" by simp
  moreover have "snd (runParallelHandlers schedule hm category hookName args []) =
                   snd (parallelCalls schedule ?pending [])"
    by (simp add: runParallelHandlers_unfold split: option.splits)
  ultimately show "snd (runParallelHandlers schedule hm category hookName args []) =
           replicate m (if category = ''config'' then args else hookContext hm # args)"
    by (simp add: handlerParams_def)
qed

theorem handlers_receive_context_unless_config_witness:
  "snd (runHandlerChain
          (registerHandlers (newHookManager ''context''
               :: (string, (string, unit, string, string list list) chainHandler) HookManager) ''config''
             [(''testExample'', recordingChainHandler)])
          ''config'' ''testExample'' [''expectedConfig''] (recording ''result'') []) =
     [[''expectedConfig''], [''expectedConfig'']]
   \<and> snd (runSequentialHandlers
          (registerHandlers (newHookManager ''context''
               :: (string, (string, unit, string, string list list) implementation) HookManager) ''config''
             [(''testExample'', recording ''result'')])
          ''config'' ''testExample'' [''expectedConfig''] []) = [[''expectedConfig'']]
   \<and> snd (runParallelHandlers [0]
          (registerHandlers (newHookManager ''context''
               :: (string, (string, unit, string, string list list) implementation) HookManager) ''config''
             [(''testExample'', recording ''result'')])
          ''config'' ''testExample'' [''expectedConfig''] []) = [[''expectedConfig'']]
   \<and> snd (runHandlerChain
          (registerHandlers (newHookManager ''context''
               :: (string, (string, unit, string, string list list) chainHandler) HookManager) ''hre''
             [(''testExample'', recordingChainHandler)])
          ''hre'' ''testExample'' [''input''] (recording ''result'') []) =
     [[''context'', ''input''], [''context'', ''input'']]
   \<and> snd (runSequentialHandlers
          (registerHandlers (newHookManager ''context''
               :: (string, (string, unit, string, string list list) implementation) HookManager) ''hre''
             [(''testExample'', recording ''result'')])
          ''hre'' ''testExample'' [''input''] []) = [[''context'', ''input'']]
   \<and> snd (runParallelHandlers [0]
          (registerHandlers (newHookManager ''context''
               :: (string, (string, unit, string, string list list) implementation) HookManager) ''hre''
             [(''testExample'', recording ''result'')])
          ''hre'' ''testExample'' [''input''] []) = [[''context'', ''input'']]"
proof -
  have c: "getHandlers (registerHandlers (newHookManager ''context''
               :: (string, (string, unit, string, string list list) chainHandler) HookManager) category
              [(''testExample'', recordingChainHandler)]) category ''testExample'' =
           replicate (Suc 0) recordingChainHandler" for category
    by (simp add: getHandlers_registerHandler)
  have p: "getHandlers (registerHandlers (newHookManager ''context''
               :: (string, (string, unit, string, string list list) implementation) HookManager) category
              [(''testExample'', recording ''result'')]) category ''testExample'' =
           replicate (Suc 0) (recording ''result'')" for category
    by (simp add: getHandlers_registerHandler)
  from handlers_receive_context_unless_config
         [OF c p, where category = "''config''" and args = "[''expectedConfig'']"
            and ?r0.0 = "''result''" and schedule = "[0]"]
       handlers_receive_context_unless_config
         [OF c p, where category = "''hre''" and args = "[''input'']"
            and ?r0.0 = "''result''" and schedule = "[0]"]
  show ?thesis by simp
qed

end
